theory Spec2Isabelle
  imports Complex_Main
begin

section \<open>The Softmax operator and its gradient (caffe2/operators/softmax_op.cc)\<close>

text \<open>
  The theory embeds the two CPU kernels of \<^verbatim>\<open>softmax_op.cc\<close>,
  \<^verbatim>\<open>SoftmaxOp<float, CPUContext>::RunOnDevice\<close> and
  \<^verbatim>\<open>SoftmaxGradientOp<float, CPUContext>::RunOnDevice\<close>.

  Scope of the model.
  \<^item> Elements are real numbers: every statement is about exact arithmetic. Rounding,
    infinities and NaN of the 32-bit floats of the source are not modelled.
  \<^item> The dimensions of a tensor and its element count are natural numbers. The source
    converts the two collapsed sizes to C++ \<^verbatim>\<open>int\<close> (\<^verbatim>\<open>const int N\<close>, \<^verbatim>\<open>const int D\<close>) and
    computes the row offsets \<^verbatim>\<open>i * D\<close> in \<^verbatim>\<open>int\<close>; the model does the same (\<open>to_int\<close>),
    and a statement about what a kernel computes from \<open>N\<close> and \<open>D\<close> has the hypothesis
    that the sizes fit (\<open>\<le> INT_MAX\<close>).
  \<^item> A tensor is its dimensions and its buffer. The tensor class keeps the buffer as long
    as the element count (\<open>wf_tensor\<close> below); the statements assume it of the inputs.
  \<^item> A raw pointer \<^verbatim>\<open>p + k\<close> into a buffer \<open>xs\<close> is the list \<open>drop k xs\<close>.
  \<^item> An exception thrown by a callee is a value \<open>Inl e\<close> of the result.
  \<^item> The members \<open>axis_\<close>, \<open>scale_\<close>, \<open>sum_multiplier_\<close> and \<open>rowmax_\<close> are written
    without the trailing underscore, and \<^verbatim>\<open>math::Set\<close> is \<open>Set_n\<close>.
\<close>

subsection \<open>Tensors\<close>

record tensor =
  dims :: "nat list"
  data :: "real list"

datatype error =
  InvalidAxis
  | OutOfBoundsRead
  | IntOutOfRange

text \<open>
  \<open>OutOfBoundsRead\<close> and \<open>IntOutOfRange\<close> are not exceptions of the source. They mark the
  places where the source leaves what it defines, and the model reports them under these
  names instead of computing a result:
  \<^item> \<open>OutOfBoundsRead\<close>: the gradient kernel reads \<open>Y.numel()\<close> cells of \<open>dY\<close> without any
    check of the length of that buffer; running off its end is undefined behaviour.
  \<^item> \<open>IntOutOfRange\<close>: a collapsed size that became negative in the conversion to
    \<^verbatim>\<open>int\<close> is handed to \<^verbatim>\<open>Resize\<close> and \<^verbatim>\<open>math::Set\<close>, whose behaviour on a negative size
    is in neither the sources nor the spec; or a row offset \<^verbatim>\<open>i * D\<close> exceeds \<^verbatim>\<open>INT_MAX\<close>,
    which is undefined behaviour.
\<close>

text \<open>The largest value of a C++ \<^verbatim>\<open>int\<close> (32 bits).\<close>

definition INT_MAX :: nat where
  "INT_MAX = 2147483647"

text \<open>The conversion of a size to \<^verbatim>\<open>int\<close> in \<^verbatim>\<open>const int N = X.size_to_dim(...)\<close>: the
  value modulo \<open>2^32\<close>, read as two's complement.\<close>

definition to_int :: "nat \<Rightarrow> int" where
  "to_int n = (int n + 2147483648) mod 4294967296 - 2147483648"

text \<open>Modelled from the spec: \<^verbatim>\<open>Tensor::numel\<close> (the tensor class is not part of the
  sources at hand). "Total element count = product of dimensions."\<close>

definition numel :: "tensor \<Rightarrow> nat" where
  "numel t = prod_list (dims t)"

text \<open>The invariant of the tensor class: "element count equals the allocated buffer
  length".\<close>

definition wf_tensor :: "tensor \<Rightarrow> bool" where
  "wf_tensor t \<longleftrightarrow> length (data t) = numel t"

text \<open>Modelled from the spec: \<^verbatim>\<open>Tensor::canonical_axis_index\<close>. "An axis a with
  \<open>-r \<le> a \<le> r\<close>", "canonicalized by adding the rank when negative"; an axis outside the
  range is an error surfaced to the caller.\<close>

definition canonical_axis_index :: "tensor \<Rightarrow> int \<Rightarrow> error + nat" where
  "canonical_axis_index t a =
     (let r = int (length (dims t))
      in if a < - r \<or> r < a then Inl InvalidAxis
         else if a < 0 then Inr (nat (a + r))
         else Inr (nat a))"

text \<open>Modelled from the spec: \<^verbatim>\<open>Tensor::size_to_dim\<close>, the product of the dimensions
  before index \<open>k\<close>, as a running product over \<open>i = 0, \<dots>, k - 1\<close>.\<close>

definition size_to_dim :: "tensor \<Rightarrow> nat \<Rightarrow> nat" where
  "size_to_dim t k = fold (\<lambda>i r. r * dims t ! i) [0..<k] 1"

text \<open>Modelled from the spec: \<^verbatim>\<open>Tensor::size_from_dim\<close>, the product of the dimensions
  at and after index \<open>k\<close>, as a running product over \<open>i = k, \<dots>, r - 1\<close>.\<close>

definition size_from_dim :: "tensor \<Rightarrow> nat \<Rightarrow> nat" where
  "size_from_dim t k = fold (\<lambda>i r. r * dims t ! i) [k..<length (dims t)] 1"

text \<open>Modelled from the spec: \<^verbatim>\<open>Tensor::Resize\<close>. The tensor takes the new
  dimensions and its buffer the matching length. Cells that the resize leaves
  uninitialised are filled with \<open>0\<close> here; no kernel reads such a cell before writing
  it, and no statement below depends on the choice.\<close>

definition Resize :: "tensor \<Rightarrow> nat list \<Rightarrow> tensor" where
  "Resize t ds =
     \<lparr>dims = ds,
      data = take (prod_list ds) (data t) @ replicate (prod_list ds - length (data t)) 0\<rparr>"

text \<open>Modelled from the spec: \<^verbatim>\<open>Tensor::ResizeLike\<close>, a resize to the dimensions of
  another tensor.\<close>

definition ResizeLike :: "tensor \<Rightarrow> tensor \<Rightarrow> tensor" where
  "ResizeLike t src = Resize t (dims src)"

subsection \<open>The primitives of the math library\<close>

text \<open>
  The kernels call \<^verbatim>\<open>math::Set\<close>, \<^verbatim>\<open>math::Dot\<close>, \<^verbatim>\<open>math::Gemm\<close>, \<^verbatim>\<open>math::Mul\<close>,
  \<^verbatim>\<open>CopySameDevice\<close> and \<^verbatim>\<open>SoftmaxCPU\<close>, none of which is defined in
  \<^verbatim>\<open>softmax_op.cc\<close>. Each is modelled from the spec's description of the "element-wise
  and reduction primitives" and of the forward algorithm. A primitive that writes through
  a pointer takes the old contents of the destination and returns the new ones.
\<close>

text \<open>Modelled from the spec: \<^verbatim>\<open>math::Set(n, v, dst)\<close> stores \<open>v\<close> in the first \<open>n\<close>
  cells of \<open>dst\<close>.\<close>

definition Set_n :: "nat \<Rightarrow> real \<Rightarrow> real list \<Rightarrow> real list" where
  "Set_n n v dst = replicate n v @ drop n dst"

text \<open>Modelled from the spec: \<^verbatim>\<open>CopySameDevice(n, src, dst)\<close>, the element-wise copy
  of \<open>n\<close> cells.\<close>

definition CopySameDevice :: "nat \<Rightarrow> real list \<Rightarrow> real list \<Rightarrow> real list" where
  "CopySameDevice n src dst = map (\<lambda>k. src ! k) [0..<n] @ drop n dst"

text \<open>Modelled from the spec: \<^verbatim>\<open>math::Dot(n, a, b, y)\<close>, the inner product of two
  vectors of length \<open>n\<close>; the value is what the source stores through \<open>y\<close>.\<close>

definition Dot :: "nat \<Rightarrow> real list \<Rightarrow> real list \<Rightarrow> real" where
  "Dot n a b = sum_list (map (\<lambda>k. a ! k * b ! k) [0..<n])"

text \<open>Modelled from the spec: \<^verbatim>\<open>math::Gemm(NoTrans, NoTrans, M, N, K, alpha, A, B, beta,
  C)\<close>, the scaled matrix product added into a matrix,
  \<open>C[i,j] := alpha * (\<Sum>k<K. A[i,k] * B[k,j]) + beta * C[i,j]\<close> on row-major buffers
  (\<open>A\<close> is \<open>M \<times> K\<close>, \<open>B\<close> is \<open>K \<times> N\<close>, \<open>C\<close> is \<open>M \<times> N\<close>). Both call sites pass untransposed
  operands, so the two transposition flags are left out.\<close>

definition Gemm ::
  "nat \<Rightarrow> nat \<Rightarrow> nat \<Rightarrow> real \<Rightarrow> real list \<Rightarrow> real list \<Rightarrow> real \<Rightarrow> real list \<Rightarrow> real list" where
  "Gemm M N K alpha A B beta C =
     map (\<lambda>idx. alpha * sum_list (map (\<lambda>k. A ! ((idx div N) * K + k) * B ! (k * N + idx mod N)) [0..<K])
                 + beta * C ! idx) [0..<M * N]
     @ drop (M * N) C"

text \<open>Modelled from the spec: \<^verbatim>\<open>math::Mul(n, a, b, y)\<close>, the element-wise product of
  \<open>n\<close> cells stored in \<open>y\<close>.\<close>

definition Mul :: "nat \<Rightarrow> real list \<Rightarrow> real list \<Rightarrow> real list \<Rightarrow> real list" where
  "Mul n a b y = map (\<lambda>k. a ! k * b ! k) [0..<n] @ drop n y"

text \<open>The maximum of a non-empty row, as a running maximum from its first element.\<close>

definition row_max :: "real list \<Rightarrow> real" where
  "row_max r = fold max (tl r) (hd r)"

text \<open>Modelled from the spec: \<^verbatim>\<open>SoftmaxCPU(N, D, X, Y, scale, sum_multiplier,
  logarithmic = false, rowmax)\<close>, the forward kernel of section 4.2 in its four passes:
  the row maxima \<open>m\<close>, the exponentials \<open>exp (X[i,j] - m i)\<close>, the row sums \<open>s\<close>, and
  the division by the row sum. "N = 0 or D = 0: produce an output with the same shape; no
  writes required." The result is the new contents of \<open>Y\<close>, of \<open>scale\<close> (the row sums)
  and of \<open>rowmax\<close> (the row maxima). The logarithmic variant is outside the spec.\<close>

definition SoftmaxCPU ::
  "nat \<Rightarrow> nat \<Rightarrow> real list \<Rightarrow> real list \<Rightarrow> real list \<Rightarrow> real list \<Rightarrow> real list
     \<Rightarrow> real list \<times> real list \<times> real list" where
  "SoftmaxCPU N D Xdata Ydata scaledata sum_multiplier rowmaxdata =
     (if N = 0 \<or> D = 0 then (Ydata, scaledata, rowmaxdata)
      else
        let m = map (\<lambda>i. row_max (take D (drop (i * D) Xdata))) [0..<N];
            e = map (\<lambda>idx. exp (Xdata ! idx - m ! (idx div D))) [0..<N * D];
            s = map (\<lambda>i. sum_list (take D (drop (i * D) e))) [0..<N];
            y = map (\<lambda>idx. e ! idx / s ! (idx div D)) [0..<N * D]
        in (y @ drop (N * D) Ydata, s @ drop N scaledata, m @ drop N rowmaxdata))"

subsection \<open>The operator instances\<close>

text \<open>
  The members of the two operator classes: the configured axis and the scratch tensors.
  \<^verbatim>\<open>SoftmaxGradientOp\<close> has \<open>axis_\<close>, \<open>scale_\<close> and \<open>sum_multiplier_\<close>;
  \<^verbatim>\<open>SoftmaxOp\<close> has these and \<open>rowmax_\<close>.
\<close>

record SoftmaxGradientOp =
  axis :: int
  scale :: tensor
  sum_multiplier :: tensor

record SoftmaxOp = SoftmaxGradientOp +
  rowmax :: tensor

text \<open>What the scratch tensors satisfy between invocations: each is a well-formed tensor,
  and the ones vector holds \<open>1\<close> in every cell.\<close>

definition scratch_inv :: "'a SoftmaxGradientOp_scheme \<Rightarrow> bool" where
  "scratch_inv this \<longleftrightarrow>
     wf_tensor (scale this) \<and>
     data (sum_multiplier this) = replicate (numel (sum_multiplier this)) 1"

definition rowmax_inv :: "SoftmaxOp \<Rightarrow> bool" where
  "rowmax_inv this \<longleftrightarrow> wf_tensor (rowmax this)"

text \<open>A scratch tensor before its first use: no cells.\<close>

definition unallocated :: tensor where
  "unallocated = \<lparr>dims = [0], data = []\<rparr>"

text \<open>
  The calls that a kernel issues to the math library and to the device context, in the
  order of the source; the log is part of the result of an invocation.
\<close>

datatype call =
  Set_call nat
  | CopySameDevice_call nat
  | Dot_call nat nat
  | Gemm_call nat nat nat
  | Mul_call nat
  | SoftmaxCPU_call nat nat

record 'op run_result =
  ret :: bool
  self :: 'op
  out :: tensor
  calls :: "call list"

subsection \<open>\<^verbatim>\<open>SoftmaxOp<float, CPUContext>::RunOnDevice\<close>\<close>

definition SoftmaxOp_RunOnDevice ::
  "SoftmaxOp \<Rightarrow> tensor \<Rightarrow> tensor \<Rightarrow> error + SoftmaxOp run_result" where
  "SoftmaxOp_RunOnDevice this X Y =
     (case canonical_axis_index X (axis this) of
        Inl e \<Rightarrow> Inl e
      | Inr canonical_axis \<Rightarrow>
          let N = to_int (size_to_dim X canonical_axis);
              D = to_int (size_from_dim X canonical_axis);
              Y1 = ResizeLike Y X;
              Ydata = data Y1
          in if N < 0 \<or> D < 0 then Inl IntOutOfRange
             else
               let scale1 =
                     (if int (numel (scale this)) \<noteq> N then Resize (scale this) [nat N]
                      else scale this);
                   rowmax1 =
                     (if int (numel (rowmax this)) \<noteq> N then Resize (rowmax this) [nat N]
                      else rowmax this);
                   fill = (int (numel (sum_multiplier this)) \<noteq> D);
                   sum_multiplier1 =
                     (if fill
                      then let r = Resize (sum_multiplier this) [nat D]
                           in r\<lparr>data := Set_n (nat D) 1 (data r)\<rparr>
                      else sum_multiplier this);
                   (Ydata1, scaledata, rowmaxdata) =
                     SoftmaxCPU (nat N) (nat D) (data X) Ydata (data scale1) (data sum_multiplier1)
                       (data rowmax1)
               in Inr \<lparr>ret = True,
                       self = this\<lparr>scale := scale1\<lparr>data := scaledata\<rparr>,
                                   sum_multiplier := sum_multiplier1,
                                   rowmax := rowmax1\<lparr>data := rowmaxdata\<rparr>\<rparr>,
                       out = Y1\<lparr>data := Ydata1\<rparr>,
                       calls = (if fill then [Set_call (nat D)] else [])
                                 @ [SoftmaxCPU_call (nat N) (nat D)]\<rparr>)"

subsection \<open>\<^verbatim>\<open>SoftmaxGradientOp<float, CPUContext>::RunOnDevice\<close>\<close>

text \<open>The loop of lines 69 to 72: row \<open>i\<close> of \<open>Y\<close> and of \<open>dY\<close> start at offset \<open>i * D\<close>,
  and their inner product is stored in \<open>scaledata[i]\<close>. The kernel enters it only when the
  largest offset, \<open>(N - 1) * D\<close>, is within \<^verbatim>\<open>int\<close>.\<close>

definition dot_rows :: "nat \<Rightarrow> nat \<Rightarrow> real list \<Rightarrow> real list \<Rightarrow> real list \<Rightarrow> real list" where
  "dot_rows N D Ydata dYdata scaledata =
     fold (\<lambda>i sc. sc[i := Dot D (drop (i * D) Ydata) (drop (i * D) dYdata)]) [0..<N] scaledata"

definition SoftmaxGradientOp_RunOnDevice ::
  "SoftmaxGradientOp \<Rightarrow> tensor \<Rightarrow> tensor \<Rightarrow> tensor \<Rightarrow> error + SoftmaxGradientOp run_result" where
  "SoftmaxGradientOp_RunOnDevice this Y dY dX =
     (case canonical_axis_index Y (axis this) of
        Inl e \<Rightarrow> Inl e
      | Inr canonical_axis \<Rightarrow>
          let N = to_int (size_to_dim Y canonical_axis);
              D = to_int (size_from_dim Y canonical_axis)
          in if N < 0 \<or> D < 0 then Inl IntOutOfRange
             else
               let scale1 =
                     (if int (numel (scale this)) \<noteq> N then Resize (scale this) [nat N]
                      else scale this);
                   fill = (int (numel (sum_multiplier this)) \<noteq> D);
                   sum_multiplier1 =
                     (if fill
                      then let r = Resize (sum_multiplier this) [nat D]
                           in r\<lparr>data := Set_n (nat D) 1 (data r)\<rparr>
                      else sum_multiplier this);
                   calls1 = (if fill then [Set_call (nat D)] else []);
                   dX1 = ResizeLike dX Y;
                   Ydata = data Y;
                   dYdata = data dY;
                   dXdata = data dX1
               in if N = 0
                  then Inr \<lparr>ret = True,
                            self = this\<lparr>scale := scale1, sum_multiplier := sum_multiplier1\<rparr>,
                            out = dX1,
                            calls = calls1\<rparr>
                  else if length dYdata < numel Y then Inl OutOfBoundsRead
                  else if int INT_MAX < (N - 1) * D then Inl IntOutOfRange
                  else
                    let dXdata1 = CopySameDevice (numel Y) dYdata dXdata;
                        scaledata = dot_rows (nat N) (nat D) Ydata dYdata (data scale1);
                        dXdata2 =
                          Gemm (nat N) (nat D) 1 (- 1) scaledata (data sum_multiplier1) 1 dXdata1;
                        dXdata3 = Mul (numel Y) dXdata2 Ydata dXdata2
                    in Inr \<lparr>ret = True,
                            self = this\<lparr>scale := scale1\<lparr>data := scaledata\<rparr>,
                                        sum_multiplier := sum_multiplier1\<rparr>,
                            out = dX1\<lparr>data := dXdata3\<rparr>,
                            calls = calls1 @ [CopySameDevice_call (numel Y)]
                                      @ map (Dot_call (nat D)) [0..<nat N]
                                      @ [Gemm_call (nat N) (nat D) 1, Mul_call (numel Y)]\<rparr>)"

subsection \<open>The broadcast subtraction in the words of the spec\<close>

text \<open>"For each row \<open>i\<close>, subtract \<open>c i\<close> from every \<open>dX[i,j]\<close>": the explicit nested loop
  that the spec offers in place of the rank-1 update.\<close>

definition broadcast_subtract :: "nat \<Rightarrow> nat \<Rightarrow> real list \<Rightarrow> real list \<Rightarrow> real list" where
  "broadcast_subtract N D c dXdata =
     fold (\<lambda>i dx. fold (\<lambda>j dx'. dx'[i * D + j := dx' ! (i * D + j) - c ! i]) [0..<D] dx)
          [0..<N] dXdata"

subsection \<open>Example inputs\<close>

definition example_op :: SoftmaxGradientOp where
  "example_op = \<lparr>axis = 1, scale = unallocated, sum_multiplier = unallocated\<rparr>"

definition example_Y :: tensor where
  "example_Y = \<lparr>dims = [1, 2], data = [1 / 4, 3 / 4]\<rparr>"

definition example_dY :: tensor where
  "example_dY = \<lparr>dims = [1, 2], data = [1, 0]\<rparr>"

definition example_uniform_dY :: tensor where
  "example_uniform_dY = \<lparr>dims = [1, 2], data = [5, 5]\<rparr>"

definition example_dY_other_shape :: tensor where
  "example_dY_other_shape = \<lparr>dims = [2, 1], data = [1, 0]\<rparr>"

definition example_empty_Y :: tensor where
  "example_empty_Y = \<lparr>dims = [0, 3], data = []\<rparr>"

definition example_forward_op :: SoftmaxOp where
  "example_forward_op =
     \<lparr>axis = 1, scale = unallocated, sum_multiplier = unallocated, rowmax = unallocated\<rparr>"

definition example_X :: tensor where
  "example_X = \<lparr>dims = [1, 2], data = [0, 0]\<rparr>"

definition example_no_columns_X :: tensor where
  "example_no_columns_X = \<lparr>dims = [1, 0], data = []\<rparr>"

definition example_forward_result :: "SoftmaxOp run_result" where
  "example_forward_result =
     \<lparr>ret = True,
      self = \<lparr>axis = 1,
              scale = \<lparr>dims = [1], data = [2]\<rparr>,
              sum_multiplier = \<lparr>dims = [2], data = [1, 1]\<rparr>,
              rowmax = \<lparr>dims = [1], data = [0]\<rparr>\<rparr>,
      out = \<lparr>dims = [1, 2], data = [1 / 2, 1 / 2]\<rparr>,
      calls = [Set_call 2, SoftmaxCPU_call 1 2]\<rparr>"

definition example_backward_result :: "SoftmaxGradientOp run_result" where
  "example_backward_result =
     \<lparr>ret = True,
      self = \<lparr>axis = 1,
              scale = \<lparr>dims = [1], data = [1 / 4]\<rparr>,
              sum_multiplier = \<lparr>dims = [2], data = [1, 1]\<rparr>\<rparr>,
      out = \<lparr>dims = [1, 2], data = [3 / 16, - (3 / 16)]\<rparr>,
      calls = [Set_call 2, CopySameDevice_call 2, Dot_call 2 0, Gemm_call 1 2 1, Mul_call 2]\<rparr>"

definition example_T :: tensor where
  "example_T = \<lparr>dims = [2, 3, 4], data = replicate 24 0\<rparr>"

section \<open>Properties\<close>

subsection \<open>Lists and sums\<close>

lemma map_nth_upt_take: "k \<le> length ds \<Longrightarrow> map (\<lambda>i. ds ! i) [0..<k] = take k ds"
  by (rule nth_equalityI) simp_all

lemma map_nth_upt_drop: "map (\<lambda>i. ds ! i) [k..<length ds] = drop k ds"
  by (rule nth_equalityI) simp_all

lemma fold_update_upt:
  "n \<le> length sc \<Longrightarrow> fold (\<lambda>i s. s[i := f i]) [0..<n] sc = map f [0..<n] @ drop n sc"
proof (induction n)
  case 0
  then show ?case by simp
next
  case (Suc n)
  then have "n < length sc" by simp
  then have "(map f [0..<n] @ drop n sc)[n := f n] = map f [0..<n] @ (drop n sc)[0 := f n]"
    by (simp add: list_update_append)
  also have "(drop n sc)[0 := f n] = f n # drop (Suc n) sc"
    using \<open>n < length sc\<close> by (simp add: Cons_nth_drop_Suc [symmetric])
  finally show ?case using Suc by simp
qed

lemma length_fold_update:
  "length (fold (\<lambda>j dx. dx[g j := h dx j]) js xs) = length xs"
  by (induction js arbitrary: xs) simp_all

lemma set_take_drop:
  assumes "b + n \<le> length xs"
  shows "set (take n (drop b xs)) = (\<lambda>k. xs ! (b + k)) ` {..<n}"
proof -
  have "take n (drop b xs) = map (\<lambda>k. xs ! (b + k)) [0..<n]"
    using assms by (intro nth_equalityI) simp_all
  then show ?thesis by (simp add: lessThan_atLeast0)
qed

lemma sum_list_take_drop:
  fixes xs :: "real list"
  assumes "b + n \<le> length xs"
  shows "sum_list (take n (drop b xs)) = (\<Sum>k<n. xs ! (b + k))"
proof -
  have "take n (drop b xs) = map (\<lambda>k. xs ! (b + k)) [0..<n]"
    using assms by (intro nth_equalityI) simp_all
  then show ?thesis
    by (simp add: interv_sum_list_conv_sum_set_nat lessThan_atLeast0)
qed

lemma row_index:
  assumes "i < N" "j < (D::nat)"
  shows "i * D + j < N * D" "(i * D + j) div D = i" "(i * D + j) mod D = j"
    "i * D + D \<le> N * D"
proof -
  have "i * D + D = Suc i * D" by simp
  also have "\<dots> \<le> N * D" using assms by (intro mult_le_mono1) simp
  finally show "i * D + D \<le> N * D" .
  then show "i * D + j < N * D" using assms by simp
  show "(i * D + j) div D = i" "(i * D + j) mod D = j" using assms by simp_all
qed

subsection \<open>Tensors and the collapse to \<open>(N, D)\<close>\<close>

lemma to_int_id: "n \<le> INT_MAX \<Longrightarrow> to_int n = int n"
  by (simp add: to_int_def INT_MAX_def)

lemma row_offset_in_range:
  assumes "N * D \<le> INT_MAX"
  shows "\<not> int INT_MAX < (int N - 1) * int D"
proof -
  have "(int N - 1) * int D \<le> int N * int D" by (simp add: mult_right_mono)
  also have "\<dots> = int (N * D)" by simp
  also have "\<dots> \<le> int INT_MAX" using assms by (simp only: of_nat_le_iff)
  finally show ?thesis by simp
qed

lemma fold_mult_nth:
  "fold (\<lambda>i r. r * ds ! i) [a..<b] (acc::nat) = acc * prod_list (map (\<lambda>i. ds ! i) [a..<b])"
proof (induction b arbitrary: acc)
  case 0
  then show ?case by simp
next
  case (Suc b)
  show ?case
  proof (cases "a \<le> b")
    case True
    then show ?thesis using Suc by (simp add: mult.assoc)
  next
    case False
    then show ?thesis by simp
  qed
qed

lemma size_to_dim_prod:
  assumes "k \<le> length (dims t)"
  shows "size_to_dim t k = prod_list (take k (dims t))"
proof -
  have "map (\<lambda>i. dims t ! i) [0..<k] = take k (dims t)"
    using assms by (rule map_nth_upt_take)
  then show ?thesis by (simp add: size_to_dim_def fold_mult_nth)
qed

lemma size_from_dim_prod: "size_from_dim t k = prod_list (drop k (dims t))"
proof -
  have "map (\<lambda>i. dims t ! i) [k..<length (dims t)] = drop k (dims t)"
    by (rule map_nth_upt_drop)
  then show ?thesis by (simp add: size_from_dim_def fold_mult_nth)
qed

lemma size_to_from_numel:
  assumes "k \<le> length (dims t)"
  shows "size_to_dim t k * size_from_dim t k = numel t"
proof -
  have "prod_list (take k (dims t) @ drop k (dims t)) = prod_list (dims t)" by simp
  then show ?thesis
    unfolding size_to_dim_prod [OF assms] size_from_dim_prod numel_def
    by (simp only: prod_list.append)
qed

lemma canonical_axis_index_le:
  "canonical_axis_index t a = Inr k \<Longrightarrow> k \<le> length (dims t)"
  by (auto simp: canonical_axis_index_def Let_def split: if_splits)

lemma length_Resize [simp]: "length (data (Resize t ds)) = prod_list ds"
  by (simp add: Resize_def)

lemma dims_Resize [simp]: "dims (Resize t ds) = ds"
  by (simp add: Resize_def)

lemma numel_Resize [simp]: "numel (Resize t [n]) = n"
  by (simp add: numel_def)

lemma tensor_data_update: "t\<lparr>data := xs\<rparr> = \<lparr>dims = dims t, data = xs\<rparr>"
  by (cases t) simp

lemma ResizeLike_wf:
  "wf_tensor Y \<Longrightarrow> numel Y = n \<Longrightarrow> ResizeLike dX Y = \<lparr>dims = dims Y, data = data (ResizeLike dX Y)\<rparr> \<and> length (data (ResizeLike dX Y)) = n"
  by (simp add: ResizeLike_def Resize_def numel_def)

lemma scratch_step:
  assumes "wf_tensor t"
  shows "numel (if numel t \<noteq> n then Resize t [n] else t) = n"
    and "length (data (if numel t \<noteq> n then Resize t [n] else t)) = n"
    and "dims (if numel t \<noteq> n then Resize t [n] else t) = (if numel t \<noteq> n then [n] else dims t)"
  using assms by (simp_all add: wf_tensor_def)

lemma ones_step:
  assumes "data t = replicate (numel t) 1"
  shows "numel (if numel t \<noteq> n then \<lparr>dims = [n], data = replicate n 1\<rparr> else t) = n"
    and "data (if numel t \<noteq> n then \<lparr>dims = [n], data = replicate n 1\<rparr> else t) = replicate n 1"
  using assms by (simp_all add: numel_def)

subsection \<open>The primitives\<close>

lemma CopySameDevice_full:
  "length dst = n \<Longrightarrow> CopySameDevice n src dst = map (\<lambda>k. src ! k) [0..<n]"
  by (simp add: CopySameDevice_def)

lemma Set_n_full: "length dst = n \<Longrightarrow> Set_n n v dst = replicate n v"
  by (simp add: Set_n_def)

lemma Mul_full: "length y = n \<Longrightarrow> Mul n a b y = map (\<lambda>k. a ! k * b ! k) [0..<n]"
  by (simp add: Mul_def)

lemma Dot_drop:
  assumes "b + n \<le> length xs" "b + n \<le> length ys"
  shows "Dot n (drop b xs) (drop b ys) = (\<Sum>k<n. xs ! (b + k) * ys ! (b + k))"
proof -
  have "Dot n (drop b xs) (drop b ys) = (\<Sum>k\<in>set [0..<n]. drop b xs ! k * drop b ys ! k)"
    unfolding Dot_def by (rule interv_sum_list_conv_sum_set_nat)
  also have "\<dots> = (\<Sum>k<n. xs ! (b + k) * ys ! (b + k))"
    using assms by (intro sum.cong) (auto simp: lessThan_atLeast0)
  finally show ?thesis .
qed

lemma Gemm_rank1_general:
  "Gemm N D 1 (- 1) c (replicate D 1) 1 C
     = map (\<lambda>idx. C ! idx - c ! (idx div D)) [0..<N * D] @ drop (N * D) C"
proof -
  have "alpha = C ! idx - c ! (idx div D)"
    if "idx < N * D"
      and "alpha = - 1 * sum_list (map (\<lambda>k. c ! ((idx div D) * 1 + k) * replicate D (1::real) ! (k * D + idx mod D)) [0..<1]) + 1 * C ! idx"
    for idx alpha
  proof -
    from that(1) have "0 < D" by (cases D) simp_all
    then have "idx mod D < D" by simp
    then show ?thesis using that(2) by simp
  qed
  then have "map (\<lambda>idx. - 1 * sum_list (map (\<lambda>k. c ! ((idx div D) * 1 + k) * replicate D (1::real) ! (k * D + idx mod D)) [0..<1]) + 1 * C ! idx) [0..<N * D]
      = map (\<lambda>idx. C ! idx - c ! (idx div D)) [0..<N * D]"
    by (intro map_cong refl) simp
  then show ?thesis unfolding Gemm_def by simp
qed

lemma Gemm_rank1:
  assumes "length C = N * D"
  shows "Gemm N D 1 (- 1) c (replicate D 1) 1 C = map (\<lambda>idx. C ! idx - c ! (idx div D)) [0..<N * D]"
  unfolding Gemm_rank1_general using assms by simp

lemma dot_rows_eq:
  "length sc = N \<Longrightarrow>
   dot_rows N D Ydata dYdata sc = map (\<lambda>i. Dot D (drop (i * D) Ydata) (drop (i * D) dYdata)) [0..<N]"
  by (simp add: dot_rows_def fold_update_upt)

lemma length_dot_rows [simp]: "length (dot_rows N D a b sc) = length sc"
proof -
  have "length (fold (\<lambda>i sc. sc[i := f i]) is sc) = length sc" for f :: "nat \<Rightarrow> real" and "is"
    by (induction "is" arbitrary: sc) simp_all
  then show ?thesis by (simp add: dot_rows_def)
qed

subsection \<open>The broadcast subtraction\<close>

lemma row_loop_nth:
  fixes xs :: "real list"
  assumes "k < length xs"
  shows "fold (\<lambda>j dx. dx[b + j := dx ! (b + j) - v]) [0..<n] xs ! k
           = (if b \<le> k \<and> k < b + n then xs ! k - v else xs ! k)"
  using assms
proof (induction n)
  case 0
  then show ?case by simp
next
  case (Suc n)
  let ?F = "fold (\<lambda>j dx. dx[b + j := dx ! (b + j) - v]) [0..<n] xs"
  have len: "length ?F = length xs" by (rule length_fold_update)
  have step: "fold (\<lambda>j dx. dx[b + j := dx ! (b + j) - v]) [0..<Suc n] xs
      = ?F[b + n := ?F ! (b + n) - v]" by simp
  show ?case
  proof (cases "k = b + n")
    case True
    then have "?F ! (b + n) = xs ! (b + n)" using Suc by simp
    then show ?thesis unfolding step using True Suc.prems len by simp
  next
    case False
    then show ?thesis unfolding step using Suc len by auto
  qed
qed

lemma broadcast_subtract_length [simp]: "length (broadcast_subtract N D c xs) = length xs"
proof -
  have "length (fold (\<lambda>i dx. fold (\<lambda>j dx'. dx'[i * D + j := dx' ! (i * D + j) - c ! i]) [0..<D] dx) is xs)
      = length xs" for "is"
    by (induction "is" arbitrary: xs) (simp_all add: length_fold_update)
  then show ?thesis by (simp add: broadcast_subtract_def)
qed

lemma broadcast_subtract_nth:
  assumes "k < length xs"
  shows "broadcast_subtract N D c xs ! k = (if k < N * D then xs ! k - c ! (k div D) else xs ! k)"
  using assms
proof (induction N)
  case 0
  then show ?case by (simp add: broadcast_subtract_def)
next
  case (Suc N)
  let ?G = "broadcast_subtract N D c xs"
  have len: "length ?G = length xs" by simp
  have step: "broadcast_subtract (Suc N) D c xs
      = fold (\<lambda>j dx'. dx'[N * D + j := dx' ! (N * D + j) - c ! N]) [0..<D] ?G"
    by (simp add: broadcast_subtract_def)
  have k: "k < length ?G" using Suc.prems by simp
  show ?case
  proof (cases "N * D \<le> k \<and> k < N * D + D")
    case True
    then have "k div D = N"
      by (intro div_nat_eqI) (simp_all add: mult.commute)
    then show ?thesis
      unfolding step row_loop_nth [OF k] using True Suc by simp
  next
    case False
    then show ?thesis
      unfolding step row_loop_nth [OF k] using Suc by auto
  qed
qed

text \<open>
  Claim C7. The rank-1 \<open>Gemm\<close> of the gradient kernel (the scale vector against the
  all-ones vector, coefficient \<open>-1\<close>, added into \<open>dX\<close>) computes what the explicit nested
  loop computes that subtracts \<open>c i\<close> from every \<open>dX[i,j]\<close>, for every \<open>N\<close> and \<open>D\<close>,
  every scale vector and every buffer of at least \<open>N * D\<close> cells.
\<close>

theorem rank1_update_is_broadcast_subtract:
  assumes "N * D \<le> length dXdata"
  shows "Gemm N D 1 (- 1) c (replicate D 1) 1 dXdata = broadcast_subtract N D c dXdata"
proof -
  have "map (\<lambda>idx. dXdata ! idx - c ! (idx div D)) [0..<N * D] @ drop (N * D) dXdata
      = broadcast_subtract N D c dXdata"
  proof (rule nth_equalityI)
    show "length (map (\<lambda>idx. dXdata ! idx - c ! (idx div D)) [0..<N * D] @ drop (N * D) dXdata)
        = length (broadcast_subtract N D c dXdata)"
      using assms by simp
  next
    fix k
    assume "k < length (map (\<lambda>idx. dXdata ! idx - c ! (idx div D)) [0..<N * D] @ drop (N * D) dXdata)"
    then have "k < length dXdata" using assms by simp
    then show "(map (\<lambda>idx. dXdata ! idx - c ! (idx div D)) [0..<N * D] @ drop (N * D) dXdata) ! k
        = broadcast_subtract N D c dXdata ! k"
      using assms by (simp add: broadcast_subtract_nth nth_append)
  qed
  then show ?thesis by (simp only: Gemm_rank1_general)
qed

theorem rank1_update_is_broadcast_subtract_witness:
  "1 * 2 \<le> length [1, 0 :: real] \<and>
   Gemm 1 2 1 (- 1) [1 / 4] (replicate 2 1) 1 [1, 0] = [3 / 4, - (1 / 4)] \<and>
   broadcast_subtract 1 2 [1 / 4] [1, 0] = [3 / 4, - (1 / 4)]"
proof -
  have "broadcast_subtract 1 2 [1 / 4] [1, 0] = [3 / 4, - (1 / 4)]"
    by (simp add: broadcast_subtract_def numeral_2_eq_2)
  with rank1_update_is_broadcast_subtract [of 1 2 "[1, 0]" "[1 / 4]"]
  show ?thesis by simp
qed

subsection \<open>The gradient kernel\<close>

lemma backward_data:
  assumes lenY: "length Ydata = N * D" and lendX: "length dXdata = N * D"
  shows "Mul (N * D)
           (Gemm N D 1 (- 1) (map (\<lambda>i. Dot D (drop (i * D) Ydata) (drop (i * D) dYdata)) [0..<N])
              (replicate D 1) 1 (CopySameDevice (N * D) dYdata dXdata))
           Ydata
           (Gemm N D 1 (- 1) (map (\<lambda>i. Dot D (drop (i * D) Ydata) (drop (i * D) dYdata)) [0..<N])
              (replicate D 1) 1 (CopySameDevice (N * D) dYdata dXdata))
         = map (\<lambda>idx. Ydata ! idx *
                  (dYdata ! idx - Dot D (drop (idx div D * D) Ydata) (drop (idx div D * D) dYdata)))
             [0..<N * D]"
proof -
  let ?c = "\<lambda>i. Dot D (drop (i * D) Ydata) (drop (i * D) dYdata)"
  have copy: "CopySameDevice (N * D) dYdata dXdata = map (\<lambda>k. dYdata ! k) [0..<N * D]"
    using lendX by (rule CopySameDevice_full)
  have div_lt: "idx div D < N" if "idx < N * D" for idx
    using that by (simp add: less_mult_imp_div_less)
  have gemm: "Gemm N D 1 (- 1) (map ?c [0..<N]) (replicate D 1) 1 (map (\<lambda>k. dYdata ! k) [0..<N * D])
        = map (\<lambda>idx. dYdata ! idx - ?c (idx div D)) [0..<N * D]"
    by (subst Gemm_rank1) (simp_all add: div_lt)
  show ?thesis
    unfolding copy gemm
    by (subst Mul_full) (simp_all add: mult.commute)
qed

lemma backward_run:
  fixes this :: SoftmaxGradientOp
  assumes ax: "canonical_axis_index Y (axis this) = Inr a"
    and wfY: "wf_tensor Y"
    and inv: "scratch_inv this"
    and N: "size_to_dim Y a = N" and D: "size_from_dim Y a = D"
    and N0: "N \<noteq> 0"
    and len: "numel Y \<le> length (data dY)"
    and fit: "N \<le> INT_MAX" "D \<le> INT_MAX" "numel Y \<le> INT_MAX"
  shows "SoftmaxGradientOp_RunOnDevice this Y dY dX =
     Inr \<lparr>ret = True,
          self = this\<lparr>scale := (if numel (scale this) \<noteq> N then Resize (scale this) [N] else scale this)
                               \<lparr>data := map (\<lambda>i. Dot D (drop (i * D) (data Y)) (drop (i * D) (data dY))) [0..<N]\<rparr>,
                      sum_multiplier := (if numel (sum_multiplier this) \<noteq> D
                                         then \<lparr>dims = [D], data = replicate D 1\<rparr>
                                         else sum_multiplier this)\<rparr>,
          out = \<lparr>dims = dims Y,
                 data = map (\<lambda>idx. data Y ! idx *
                            (data dY ! idx - Dot D (drop (idx div D * D) (data Y)) (drop (idx div D * D) (data dY))))
                          [0..<N * D]\<rparr>,
          calls = (if numel (sum_multiplier this) \<noteq> D then [Set_call D] else [])
                    @ [CopySameDevice_call (N * D)] @ map (Dot_call D) [0..<N]
                    @ [Gemm_call N D 1, Mul_call (N * D)]\<rparr>"
proof -
  have a_le: "a \<le> length (dims Y)" using ax by (rule canonical_axis_index_le)
  have ND: "numel Y = N * D" using size_to_from_numel [OF a_le] N D by simp
  have lenY: "length (data Y) = N * D" using wfY ND by (simp add: wf_tensor_def)
  have lendX: "length (data (ResizeLike dX Y)) = N * D"
    using ResizeLike_wf [OF wfY ND] by simp
  have dimsdX: "dims (ResizeLike dX Y) = dims Y" by (simp add: ResizeLike_def)
  have nolen: "\<not> length (data dY) < N * D" using len ND by simp
  have lsc: "numel (scale this) = N \<Longrightarrow> length (data (scale this)) = N"
    using inv by (simp add: scratch_inv_def wf_tensor_def)
  have smd: "numel (sum_multiplier this) = D \<Longrightarrow> data (sum_multiplier this) = replicate D 1"
    using inv by (simp add: scratch_inv_def)
  have conv: "to_int N = int N" "to_int D = int D"
    using fit(1,2) by (simp_all add: to_int_id)
  have off: "\<not> int INT_MAX < (int N - 1) * int D"
    using fit(3) ND by (intro row_offset_in_range) simp
  note core = backward_data [OF lenY lendX, of "data dY"]
  show ?thesis
  proof (cases "numel (scale this) = N")
    case sc: True
    show ?thesis
    proof (cases "numel (sum_multiplier this) = D")
      case True
      show ?thesis
        using N0 nolen off sc True lsc smd
        by (simp add: SoftmaxGradientOp_RunOnDevice_def ax Let_def N D conv ND core dot_rows_eq
            dimsdX tensor_data_update del: One_nat_def)
    next
      case False
      show ?thesis
        using N0 nolen off sc False lsc
        by (simp add: SoftmaxGradientOp_RunOnDevice_def ax Let_def N D conv ND core dot_rows_eq
            dimsdX tensor_data_update Set_n_full del: One_nat_def)
    qed
  next
    case sc: False
    show ?thesis
    proof (cases "numel (sum_multiplier this) = D")
      case True
      show ?thesis
        using N0 nolen off sc True smd
        by (simp add: SoftmaxGradientOp_RunOnDevice_def ax Let_def N D conv ND core dot_rows_eq
            dimsdX tensor_data_update del: One_nat_def)
    next
      case False
      show ?thesis
        using N0 nolen off sc False
        by (simp add: SoftmaxGradientOp_RunOnDevice_def ax Let_def N D conv ND core dot_rows_eq
            dimsdX tensor_data_update Set_n_full del: One_nat_def)
    qed
  qed
qed

lemma backward_run_empty:
  fixes this :: SoftmaxGradientOp
  assumes ax: "canonical_axis_index Y (axis this) = Inr a"
    and N: "size_to_dim Y a = 0" and D: "size_from_dim Y a = D"
    and fit: "D \<le> INT_MAX"
  shows "SoftmaxGradientOp_RunOnDevice this Y dY dX =
     Inr \<lparr>ret = True,
          self = this\<lparr>scale := (if numel (scale this) \<noteq> 0 then Resize (scale this) [0] else scale this),
                      sum_multiplier := (if numel (sum_multiplier this) \<noteq> D
                                         then \<lparr>dims = [D], data = replicate D 1\<rparr>
                                         else sum_multiplier this)\<rparr>,
          out = ResizeLike dX Y,
          calls = (if numel (sum_multiplier this) \<noteq> D then [Set_call D] else [])\<rparr>"
proof -
  have conv: "to_int 0 = 0" "to_int D = int D"
    using fit by (simp_all add: to_int_id)
  show ?thesis
    by (simp add: SoftmaxGradientOp_RunOnDevice_def ax N D conv Let_def Set_n_full
        tensor_data_update)
qed

lemma backward_returns:
  fixes this :: SoftmaxGradientOp
  assumes ax: "canonical_axis_index Y (axis this) = Inr a"
    and N: "size_to_dim Y a = N" and D: "size_from_dim Y a = D"
    and fit: "N \<le> INT_MAX" "D \<le> INT_MAX" "numel Y \<le> INT_MAX"
    and len: "numel Y \<le> length (data dY)"
  shows "\<exists>r. SoftmaxGradientOp_RunOnDevice this Y dY dX = Inr r"
proof -
  have a_le: "a \<le> length (dims Y)" using ax by (rule canonical_axis_index_le)
  have ND: "numel Y = N * D" using size_to_from_numel [OF a_le] N D by simp
  have conv: "to_int N = int N" "to_int D = int D"
    using fit(1,2) by (simp_all add: to_int_id)
  have off: "\<not> int INT_MAX < (int N - 1) * int D"
    using fit(3) ND by (intro row_offset_in_range) simp
  have nolen: "\<not> length (data dY) < numel Y" using len by simp
  show ?thesis
    using off nolen
    by (simp add: SoftmaxGradientOp_RunOnDevice_def ax N D conv Let_def)
qed

lemma backward_frame:
  fixes bwd :: SoftmaxGradientOp
  assumes ax: "canonical_axis_index Y (axis bwd) = Inr a"
    and N: "size_to_dim Y a = N" and D: "size_from_dim Y a = D"
    and fit: "N \<le> INT_MAX" "D \<le> INT_MAX"
    and run: "SoftmaxGradientOp_RunOnDevice bwd Y dY dX = Inr r"
  shows "dims (scale (self r)) = (if numel (scale bwd) \<noteq> N then [N] else dims (scale bwd))"
    and "length (data (scale (self r)))
           = length (data (if numel (scale bwd) \<noteq> N then Resize (scale bwd) [N] else scale bwd))"
    and "sum_multiplier (self r)
           = (if numel (sum_multiplier bwd) \<noteq> D then \<lparr>dims = [D], data = replicate D 1\<rparr>
              else sum_multiplier bwd)"
    and "Set_call D \<in> set (calls r) \<longleftrightarrow> numel (sum_multiplier bwd) \<noteq> D"
    and "dims (out r) = dims Y"
  using run to_int_id [OF fit(1)] to_int_id [OF fit(2)]
  by (auto simp: SoftmaxGradientOp_RunOnDevice_def ax N D Let_def Set_n_full tensor_data_update
      Resize_def ResizeLike_def split: if_splits)

lemma factors_fit:
  assumes "N * D \<le> INT_MAX" and "1 \<le> N" and "1 \<le> (D::nat)"
  shows "N \<le> INT_MAX" and "D \<le> INT_MAX"
proof -
  have "N * 1 \<le> N * D" using assms(3) by (rule mult_le_mono2)
  then have "N \<le> N * D" by (simp only: mult_1_right)
  then show "N \<le> INT_MAX" using assms(1) by (rule le_trans)
  have "1 * D \<le> N * D" using assms(2) by (rule mult_le_mono1)
  then have "D \<le> N * D" by (simp only: mult_1)
  then show "D \<le> INT_MAX" using assms(1) by (rule le_trans)
qed

lemma backward_elements:
  fixes this :: SoftmaxGradientOp
  assumes ax: "canonical_axis_index Y (axis this) = Inr a"
    and wfY: "wf_tensor Y"
    and inv: "scratch_inv this"
    and N: "size_to_dim Y a = N" and D: "size_from_dim Y a = D"
    and N0: "N \<noteq> 0"
    and len: "numel Y \<le> length (data dY)"
    and fit: "N \<le> INT_MAX" "D \<le> INT_MAX" "numel Y \<le> INT_MAX"
  shows "\<exists>r. SoftmaxGradientOp_RunOnDevice this Y dY dX = Inr r \<and> ret r \<and>
           dims (out r) = dims Y \<and> length (data (out r)) = N * D \<and>
           (\<forall>i<N. \<forall>j<D. data (out r) ! (i * D + j) =
               data Y ! (i * D + j) *
                 (data dY ! (i * D + j) - (\<Sum>k<D. data Y ! (i * D + k) * data dY ! (i * D + k)))) \<and>
           calls r = (if numel (sum_multiplier this) \<noteq> D then [Set_call D] else [])
                    @ [CopySameDevice_call (N * D)] @ map (Dot_call D) [0..<N]
                    @ [Gemm_call N D 1, Mul_call (N * D)]"
proof -
  have a_le: "a \<le> length (dims Y)" using ax by (rule canonical_axis_index_le)
  have ND: "numel Y = N * D" using size_to_from_numel [OF a_le] N D by simp
  have lenY: "length (data Y) = N * D" using wfY ND by (simp add: wf_tensor_def)
  have lendY: "N * D \<le> length (data dY)" using len ND by simp
  have elem: "map (\<lambda>idx. data Y ! idx *
                 (data dY ! idx - Dot D (drop (idx div D * D) (data Y)) (drop (idx div D * D) (data dY))))
               [0..<N * D] ! (i * D + j)
             = data Y ! (i * D + j) *
                 (data dY ! (i * D + j) - (\<Sum>k<D. data Y ! (i * D + k) * data dY ! (i * D + k)))"
    if "i < N" "j < D" for i j
  proof -
    note ix = row_index [OF that]
    have "Dot D (drop (i * D) (data Y)) (drop (i * D) (data dY))
        = (\<Sum>k<D. data Y ! (i * D + k) * data dY ! (i * D + k))"
      using ix(4) lenY lendY by (intro Dot_drop) simp_all
    then show ?thesis using ix(1,2) by simp
  qed
  from backward_run [OF ax wfY inv N D N0 len fit, of dX]
  obtain r where run: "SoftmaxGradientOp_RunOnDevice this Y dY dX = Inr r"
    and r: "ret r"
      "out r = \<lparr>dims = dims Y,
                 data = map (\<lambda>idx. data Y ! idx *
                            (data dY ! idx - Dot D (drop (idx div D * D) (data Y)) (drop (idx div D * D) (data dY))))
                          [0..<N * D]\<rparr>"
      "calls r = (if numel (sum_multiplier this) \<noteq> D then [Set_call D] else [])
                    @ [CopySameDevice_call (N * D)] @ map (Dot_call D) [0..<N]
                    @ [Gemm_call N D 1, Mul_call (N * D)]"
    by simp
  have "data (out r) ! (i * D + j) =
               data Y ! (i * D + j) *
                 (data dY ! (i * D + j) - (\<Sum>k<D. data Y ! (i * D + k) * data dY ! (i * D + k)))"
    if "i < N" "j < D" for i j
    using elem [OF that] by (simp add: r(2))
  moreover have "dims (out r) = dims Y" "length (data (out r)) = N * D"
    by (simp_all add: r(2))
  ultimately show ?thesis using run r(1,3) by blast
qed

lemma example_facts:
  "scratch_inv example_op" "wf_tensor example_Y" "wf_tensor example_dY"
  "dims example_dY = dims example_Y"
  "canonical_axis_index example_Y (axis example_op) = Inr 1"
  "size_to_dim example_Y 1 = 1" "size_from_dim example_Y 1 = 2"
  "wf_tensor example_uniform_dY" "dims example_uniform_dY = dims example_Y"
  "numel example_Y \<le> INT_MAX" "(1::nat) \<le> INT_MAX" "(2::nat) \<le> INT_MAX"
  by (simp_all add: scratch_inv_def wf_tensor_def numel_def example_op_def example_Y_def
      example_dY_def example_uniform_dY_def unallocated_def canonical_axis_index_def
      size_to_dim_def size_from_dim_def INT_MAX_def)

lemma example_other_facts:
  "dims example_dY_other_shape \<noteq> dims example_Y"
  "wf_tensor example_dY_other_shape"
  "numel example_Y \<le> length (data example_dY_other_shape)"
  by (simp_all add: example_dY_other_shape_def example_Y_def wf_tensor_def numel_def)

lemma example_empty_facts:
  "canonical_axis_index example_empty_Y (axis example_op) = Inr 1"
  "size_to_dim example_empty_Y 1 = 0" "size_from_dim example_empty_Y 1 = 3"
  "(3::nat) \<le> INT_MAX"
  by (simp_all add: example_empty_Y_def example_op_def canonical_axis_index_def
      size_to_dim_def size_from_dim_def INT_MAX_def)

lemma example_backward_run:
  "SoftmaxGradientOp_RunOnDevice example_op example_Y example_dY unallocated = Inr example_backward_result"
  by (simp add: SoftmaxGradientOp_RunOnDevice_def example_op_def example_Y_def
      example_dY_def unallocated_def canonical_axis_index_def size_to_dim_def
      size_from_dim_def numel_def Resize_def ResizeLike_def Set_n_def CopySameDevice_def
      dot_rows_def Dot_def Gemm_def Mul_def Let_def numeral_2_eq_2 example_backward_result_def
      to_int_def INT_MAX_def)

text \<open>
  Claim C1. For an operator whose scratch satisfies its invariant (as it does from the
  unallocated state on, by C8), a valid axis that collapses \<open>Y\<close> to \<open>(N, D)\<close> with
  \<open>N \<ge> 1\<close> and \<open>D \<ge> 1\<close>, an element count of \<open>Y\<close> that fits in \<^verbatim>\<open>int\<close>, and \<open>dY\<close> of
  the shape of \<open>Y\<close>, the gradient kernel returns true
  with \<open>dX\<close> of the shape of \<open>Y\<close>, that is \<open>N * D\<close> cells, where
  \<open>dX[i,j] = Y[i,j] * (dY[i,j] - c i)\<close> and \<open>c i = (\<Sum>k<D. Y[i,k] * dY[i,k])\<close>. The log of
  its calls is: the copy of \<open>dY\<close> into \<open>dX\<close>, one inner product per row, the rank-1
  update that subtracts \<open>c i\<close> from row \<open>i\<close>, and the element-wise product with \<open>Y\<close>
  (after a \<open>Set\<close> when the ones vector had to be refilled). Arithmetic is exact.
\<close>

theorem backward_formula:
  fixes this :: SoftmaxGradientOp
  assumes "scratch_inv this"
    and "wf_tensor Y" and "wf_tensor dY" and "dims dY = dims Y"
    and "canonical_axis_index Y (axis this) = Inr a"
    and "size_to_dim Y a = N" and "size_from_dim Y a = D"
    and "1 \<le> N" and "1 \<le> D"
    and fit: "numel Y \<le> INT_MAX"
  shows "\<exists>r. SoftmaxGradientOp_RunOnDevice this Y dY dX = Inr r \<and> ret r \<and>
           dims (out r) = dims Y \<and> length (data (out r)) = N * D \<and>
           (\<forall>i<N. \<forall>j<D. data (out r) ! (i * D + j) =
               data Y ! (i * D + j) *
                 (data dY ! (i * D + j) - (\<Sum>k<D. data Y ! (i * D + k) * data dY ! (i * D + k)))) \<and>
           calls r = (if numel (sum_multiplier this) \<noteq> D then [Set_call D] else [])
                    @ [CopySameDevice_call (N * D)] @ map (Dot_call D) [0..<N]
                    @ [Gemm_call N D 1, Mul_call (N * D)]"
proof -
  have len: "numel Y \<le> length (data dY)"
    using assms(3,4) by (simp add: wf_tensor_def numel_def)
  have N0: "N \<noteq> 0" using assms(8) by simp
  have "a \<le> length (dims Y)" using assms(5) by (rule canonical_axis_index_le)
  then have "N * D \<le> INT_MAX" using size_to_from_numel [of a Y] assms(6,7) fit by simp
  note fits = factors_fit [OF this assms(8,9)]
  show ?thesis
    using assms(5,2,1,6,7) N0 len fits fit by (rule backward_elements)
qed

theorem backward_formula_witness:
  "scratch_inv example_op \<and> wf_tensor example_Y \<and> wf_tensor example_dY \<and>
   dims example_dY = dims example_Y \<and>
   canonical_axis_index example_Y (axis example_op) = Inr 1 \<and>
   size_to_dim example_Y 1 = 1 \<and> size_from_dim example_Y 1 = 2 \<and>
   numel example_Y \<le> INT_MAX \<and>
   (case SoftmaxGradientOp_RunOnDevice example_op example_Y example_dY unallocated of
      Inl e \<Rightarrow> False
    | Inr r \<Rightarrow> ret r \<and> dims (out r) = [1, 2] \<and> length (data (out r)) = 2 \<and>
              data (out r) ! 0 = 3 / 16 \<and> data (out r) ! 1 = - (3 / 16))"
proof -
  from backward_formula [OF example_facts(1,2,3,4,5,6,7) _ _ example_facts(10), of unallocated]
  obtain r where run: "SoftmaxGradientOp_RunOnDevice example_op example_Y example_dY unallocated = Inr r"
    and r: "ret r" "dims (out r) = dims example_Y" "length (data (out r)) = 1 * 2"
    and el: "\<forall>i<1. \<forall>j<2. data (out r) ! (i * 2 + j) =
               data example_Y ! (i * 2 + j) *
                 (data example_dY ! (i * 2 + j)
                   - (\<Sum>k<2. data example_Y ! (i * 2 + k) * data example_dY ! (i * 2 + k)))"
    by auto
  have two: "{..<2::nat} = {0, 1}" by auto
  from el have "data (out r) ! (0 * 2 + 0) = 3 / 16" "data (out r) ! (0 * 2 + 1) = - (3 / 16)"
    by (simp_all add: example_Y_def example_dY_def two)
  then show ?thesis
    using run r example_facts by (simp add: example_Y_def)
qed

lemma sum_row_zero:
  fixes y dy :: "nat \<Rightarrow> real"
  assumes "(\<Sum>j<D. y j) = 1"
  shows "(\<Sum>j<D. y j * (dy j - (\<Sum>k<D. y k * dy k))) = 0"
proof -
  let ?c = "\<Sum>k<D. y k * dy k"
  have "(\<Sum>j<D. y j * (dy j - ?c)) = (\<Sum>j<D. y j * dy j) - (\<Sum>j<D. y j * ?c)"
    by (simp add: right_diff_distrib sum_subtractf)
  also have "(\<Sum>j<D. y j * ?c) = (\<Sum>j<D. y j) * ?c"
    by (simp add: sum_distrib_right)
  finally show ?thesis using assms by simp
qed

text \<open>
  Claim C2. Under the hypotheses of C1, when every row of \<open>Y\<close> sums to exactly \<open>1\<close>,
  every row of the \<open>dX\<close> that the gradient kernel produces sums to \<open>0\<close>.
\<close>

theorem backward_rows_sum_to_zero:
  fixes this :: SoftmaxGradientOp
  assumes "scratch_inv this"
    and "wf_tensor Y" and "wf_tensor dY" and "dims dY = dims Y"
    and "canonical_axis_index Y (axis this) = Inr a"
    and "size_to_dim Y a = N" and "size_from_dim Y a = D"
    and "1 \<le> N" and "1 \<le> D"
    and fit: "numel Y \<le> INT_MAX"
    and rows: "\<forall>i<N. (\<Sum>j<D. data Y ! (i * D + j)) = 1"
  shows "\<exists>r. SoftmaxGradientOp_RunOnDevice this Y dY dX = Inr r \<and>
           (\<forall>i<N. (\<Sum>j<D. data (out r) ! (i * D + j)) = 0)"
proof -
  have len: "numel Y \<le> length (data dY)"
    using assms(3,4) by (simp add: wf_tensor_def numel_def)
  have N0: "N \<noteq> 0" using assms(8) by simp
  have "a \<le> length (dims Y)" using assms(5) by (rule canonical_axis_index_le)
  then have "N * D \<le> INT_MAX" using size_to_from_numel [of a Y] assms(6,7) fit by simp
  note fits = factors_fit [OF this assms(8,9)]
  obtain r where run: "SoftmaxGradientOp_RunOnDevice this Y dY dX = Inr r"
    and el: "\<forall>i<N. \<forall>j<D. data (out r) ! (i * D + j) =
               data Y ! (i * D + j) *
                 (data dY ! (i * D + j) - (\<Sum>k<D. data Y ! (i * D + k) * data dY ! (i * D + k)))"
    using backward_elements [OF assms(5,2,1,6,7) N0 len fits fit, of dX] by blast
  have "(\<Sum>j<D. data (out r) ! (i * D + j)) = 0" if "i < N" for i
  proof -
    have "(\<Sum>j<D. data (out r) ! (i * D + j))
        = (\<Sum>j<D. data Y ! (i * D + j) *
              (data dY ! (i * D + j) - (\<Sum>k<D. data Y ! (i * D + k) * data dY ! (i * D + k))))"
      using el that by (intro sum.cong refl) simp
    also have "\<dots> = 0" using rows that by (intro sum_row_zero) simp
    finally show ?thesis .
  qed
  with run show ?thesis by blast
qed

theorem backward_rows_sum_to_zero_witness:
  "scratch_inv example_op \<and> wf_tensor example_Y \<and> wf_tensor example_dY \<and>
   dims example_dY = dims example_Y \<and>
   canonical_axis_index example_Y (axis example_op) = Inr 1 \<and>
   size_to_dim example_Y 1 = 1 \<and> size_from_dim example_Y 1 = 2 \<and>
   numel example_Y \<le> INT_MAX \<and>
   data example_Y ! 0 + data example_Y ! 1 = 1 \<and>
   (case SoftmaxGradientOp_RunOnDevice example_op example_Y example_dY unallocated of
      Inl e \<Rightarrow> False
    | Inr r \<Rightarrow> data (out r) ! 0 + data (out r) ! 1 = 0)"
proof -
  have two: "{..<2::nat} = {0, 1}" by auto
  have rows: "\<forall>i<1. (\<Sum>j<2. data example_Y ! (i * 2 + j)) = 1"
    by (simp add: example_Y_def two)
  from backward_rows_sum_to_zero [OF example_facts(1,2,3,4,5,6,7) _ _ example_facts(10) rows, of unallocated]
  obtain r where run: "SoftmaxGradientOp_RunOnDevice example_op example_Y example_dY unallocated = Inr r"
    and z: "\<forall>i<1. (\<Sum>j<2. data (out r) ! (i * 2 + j)) = 0"
    by auto
  from z have "data (out r) ! 0 + data (out r) ! 1 = 0" by (simp add: two)
  then show ?thesis
    using run example_facts by (simp add: example_Y_def)
qed

text \<open>
  Claim C3. Under the hypotheses of C1, when the rows of \<open>Y\<close> sum to \<open>1\<close> and \<open>dY\<close>
  is constant along row \<open>i\<close>, with value \<open>k\<close>, the inner product of that row is
  \<open>c i = k\<close> and the gradient kernel produces \<open>dX[i,j] = 0\<close> for every \<open>j\<close> of the row.
\<close>

theorem backward_uniform_row:
  fixes this :: SoftmaxGradientOp
  assumes "scratch_inv this"
    and "wf_tensor Y" and "wf_tensor dY" and "dims dY = dims Y"
    and "canonical_axis_index Y (axis this) = Inr a"
    and "size_to_dim Y a = N" and "size_from_dim Y a = D"
    and "1 \<le> N" and "1 \<le> D"
    and fit: "numel Y \<le> INT_MAX"
    and rows: "\<forall>i<N. (\<Sum>j<D. data Y ! (i * D + j)) = 1"
    and i: "i < N"
    and const: "\<forall>j<D. data dY ! (i * D + j) = k"
  shows "\<exists>r. SoftmaxGradientOp_RunOnDevice this Y dY dX = Inr r \<and>
           (\<Sum>j<D. data Y ! (i * D + j) * data dY ! (i * D + j)) = k \<and>
           (\<forall>j<D. data (out r) ! (i * D + j) = 0)"
proof -
  have len: "numel Y \<le> length (data dY)"
    using assms(3,4) by (simp add: wf_tensor_def numel_def)
  have N0: "N \<noteq> 0" using assms(8) by simp
  have "a \<le> length (dims Y)" using assms(5) by (rule canonical_axis_index_le)
  then have "N * D \<le> INT_MAX" using size_to_from_numel [of a Y] assms(6,7) fit by simp
  note fits = factors_fit [OF this assms(8,9)]
  obtain r where run: "SoftmaxGradientOp_RunOnDevice this Y dY dX = Inr r"
    and el: "\<forall>i<N. \<forall>j<D. data (out r) ! (i * D + j) =
               data Y ! (i * D + j) *
                 (data dY ! (i * D + j) - (\<Sum>k<D. data Y ! (i * D + k) * data dY ! (i * D + k)))"
    using backward_elements [OF assms(5,2,1,6,7) N0 len fits fit, of dX] by blast
  have "(\<Sum>j<D. data Y ! (i * D + j) * data dY ! (i * D + j)) = (\<Sum>j<D. data Y ! (i * D + j) * k)"
    using const by (intro sum.cong refl) simp
  also have "\<dots> = (\<Sum>j<D. data Y ! (i * D + j)) * k"
    by (simp add: sum_distrib_right)
  also have "\<dots> = k" using rows i by simp
  finally have c: "(\<Sum>j<D. data Y ! (i * D + j) * data dY ! (i * D + j)) = k" .
  have "data (out r) ! (i * D + j) = 0" if "j < D" for j
    using el i that const c by simp
  with run c show ?thesis by blast
qed

theorem backward_uniform_row_witness:
  "scratch_inv example_op \<and> wf_tensor example_Y \<and> wf_tensor example_uniform_dY \<and>
   dims example_uniform_dY = dims example_Y \<and>
   canonical_axis_index example_Y (axis example_op) = Inr 1 \<and>
   size_to_dim example_Y 1 = 1 \<and> size_from_dim example_Y 1 = 2 \<and>
   numel example_Y \<le> INT_MAX \<and>
   data example_Y ! 0 + data example_Y ! 1 = 1 \<and>
   data example_uniform_dY ! 0 = 5 \<and> data example_uniform_dY ! 1 = 5 \<and>
   (case SoftmaxGradientOp_RunOnDevice example_op example_Y example_uniform_dY unallocated of
      Inl e \<Rightarrow> False
    | Inr r \<Rightarrow> data (out r) ! 0 = 0 \<and> data (out r) ! 1 = 0)"
proof -
  have two: "{..<2::nat} = {0, 1}" by auto
  have rows: "\<forall>i<1. (\<Sum>j<2. data example_Y ! (i * 2 + j)) = 1"
    by (simp add: example_Y_def two)
  have const: "\<forall>j<2. data example_uniform_dY ! (0 * 2 + j) = 5"
    by (simp add: example_uniform_dY_def less_Suc_eq numeral_2_eq_2)
  from backward_uniform_row [OF example_facts(1,2,8,9,5,6,7) _ _ example_facts(10) rows _ const, of unallocated]
  obtain r where run: "SoftmaxGradientOp_RunOnDevice example_op example_Y example_uniform_dY unallocated = Inr r"
    and z: "\<forall>j<2. data (out r) ! (0 * 2 + j) = 0"
    by auto
  from z have "data (out r) ! 0 = 0" "data (out r) ! 1 = 0" by simp_all
  then show ?thesis
    using run example_facts by (simp add: example_Y_def example_uniform_dY_def)
qed

text \<open>
  Claim C4, as stated, fails. The kernel never looks at the dimensions of \<open>dY\<close>: with \<open>Y\<close>
  of shape \<open>(1, 2)\<close> and \<open>dY\<close> of shape \<open>(2, 1)\<close>, the invocation returns true and
  writes both cells of \<open>dX\<close>.
\<close>

theorem backward_accepts_other_shape:
  "wf_tensor example_Y \<and> wf_tensor example_dY_other_shape \<and>
   dims example_dY_other_shape \<noteq> dims example_Y \<and>
   SoftmaxGradientOp_RunOnDevice example_op example_Y example_dY_other_shape unallocated =
     Inr \<lparr>ret = True,
          self = \<lparr>axis = 1,
                  scale = \<lparr>dims = [1], data = [1 / 4]\<rparr>,
                  sum_multiplier = \<lparr>dims = [2], data = [1, 1]\<rparr>\<rparr>,
          out = \<lparr>dims = [1, 2], data = [3 / 16, - (3 / 16)]\<rparr>,
          calls = [Set_call 2, CopySameDevice_call 2, Dot_call 2 0, Gemm_call 1 2 1, Mul_call 2]\<rparr>"
proof -
  have "SoftmaxGradientOp_RunOnDevice example_op example_Y example_dY_other_shape unallocated =
     Inr \<lparr>ret = True,
          self = \<lparr>axis = 1,
                  scale = \<lparr>dims = [1], data = [1 / 4]\<rparr>,
                  sum_multiplier = \<lparr>dims = [2], data = [1, 1]\<rparr>\<rparr>,
          out = \<lparr>dims = [1, 2], data = [3 / 16, - (3 / 16)]\<rparr>,
          calls = [Set_call 2, CopySameDevice_call 2, Dot_call 2 0, Gemm_call 1 2 1, Mul_call 2]\<rparr>"
    by (simp add: SoftmaxGradientOp_RunOnDevice_def example_op_def example_Y_def
        example_dY_other_shape_def unallocated_def canonical_axis_index_def size_to_dim_def
        size_from_dim_def numel_def Resize_def ResizeLike_def Set_n_def CopySameDevice_def
        dot_rows_def Dot_def Gemm_def Mul_def Let_def numeral_2_eq_2 to_int_def INT_MAX_def)
  then show ?thesis using example_facts(2) example_other_facts(1,2) by simp
qed

text \<open>
  Claim C4, amended. The gradient kernel does not compare the shape of \<open>dY\<close> with the
  shape of \<open>Y\<close>. For a valid axis and sizes \<open>N\<close>, \<open>D\<close> and \<open>N * D\<close> that fit in
  \<^verbatim>\<open>int\<close>, whenever the buffer of \<open>dY\<close> holds at least as many cells as \<open>Y\<close>, whatever
  the dimensions of \<open>dY\<close> are, the invocation returns true with
  \<open>dX\<close> of the shape of \<open>Y\<close>, computed from the first \<open>N * D\<close> cells of \<open>dY\<close> read in
  the \<open>(N, D)\<close> layout of \<open>Y\<close>.
\<close>

theorem backward_dY_shape_unchecked:
  fixes this :: SoftmaxGradientOp
  assumes inv: "scratch_inv this"
    and wfY: "wf_tensor Y"
    and ax: "canonical_axis_index Y (axis this) = Inr a"
    and N: "size_to_dim Y a = N" and D: "size_from_dim Y a = D"
    and fit: "N \<le> INT_MAX" "D \<le> INT_MAX" "numel Y \<le> INT_MAX"
    and len: "numel Y \<le> length (data dY)"
  shows "\<exists>r. SoftmaxGradientOp_RunOnDevice this Y dY dX = Inr r \<and> ret r \<and>
           dims (out r) = dims Y \<and> length (data (out r)) = N * D \<and>
           (\<forall>i<N. \<forall>j<D. data (out r) ! (i * D + j) =
               data Y ! (i * D + j) *
                 (data dY ! (i * D + j) - (\<Sum>k<D. data Y ! (i * D + k) * data dY ! (i * D + k))))"
proof (cases "N = 0")
  case True
  have a_le: "a \<le> length (dims Y)" using ax by (rule canonical_axis_index_le)
  have ND: "numel Y = N * D" using size_to_from_numel [OF a_le] N D by simp
  have "length (data (ResizeLike dX Y)) = N * D" "dims (ResizeLike dX Y) = dims Y"
    using ND by (simp_all add: ResizeLike_def numel_def)
  then show ?thesis
    using True backward_run_empty [OF ax N [unfolded True] D fit(2), of dY dX] by simp
next
  case False
  from backward_elements [OF ax wfY inv N D False len fit, of dX]
  show ?thesis by blast
qed

theorem backward_dY_shape_unchecked_witness:
  "scratch_inv example_op \<and> wf_tensor example_Y \<and>
   canonical_axis_index example_Y (axis example_op) = Inr 1 \<and>
   size_to_dim example_Y 1 = 1 \<and> size_from_dim example_Y 1 = 2 \<and>
   (1::nat) \<le> INT_MAX \<and> (2::nat) \<le> INT_MAX \<and> numel example_Y \<le> INT_MAX \<and>
   numel example_Y \<le> length (data example_dY_other_shape) \<and>
   dims example_dY_other_shape \<noteq> dims example_Y \<and>
   (case SoftmaxGradientOp_RunOnDevice example_op example_Y example_dY_other_shape unallocated of
      Inl e \<Rightarrow> False
    | Inr r \<Rightarrow> ret r \<and> dims (out r) = [1, 2] \<and> length (data (out r)) = 2 \<and>
              data (out r) ! 0 = 3 / 16 \<and> data (out r) ! 1 = - (3 / 16))"
proof -
  from backward_dY_shape_unchecked [OF example_facts(1,2,5,6,7,11,12,10) example_other_facts(3), of unallocated]
  obtain r where run: "SoftmaxGradientOp_RunOnDevice example_op example_Y example_dY_other_shape unallocated = Inr r"
    and r: "ret r" "dims (out r) = dims example_Y" "length (data (out r)) = 1 * 2"
    and el: "\<forall>i<1. \<forall>j<2. data (out r) ! (i * 2 + j) =
               data example_Y ! (i * 2 + j) *
                 (data example_dY_other_shape ! (i * 2 + j)
                   - (\<Sum>k<2. data example_Y ! (i * 2 + k) * data example_dY_other_shape ! (i * 2 + k)))"
    by auto
  have two: "{..<2::nat} = {0, 1}" by auto
  from el have "data (out r) ! (0 * 2 + 0) = 3 / 16" "data (out r) ! (0 * 2 + 1) = - (3 / 16)"
    by (simp_all add: example_Y_def example_dY_other_shape_def two)
  then show ?thesis
    using run r example_facts example_other_facts by (simp add: example_Y_def)
qed

text \<open>
  Claim C5. When the collapsed \<open>N\<close> is \<open>0\<close> (and \<open>D\<close> fits in \<^verbatim>\<open>int\<close>), the gradient
  kernel returns true right after
  the resize of \<open>dX\<close> to the shape of \<open>Y\<close>: the output is the resized tensor, which has
  no cells, and the log of calls holds no copy, no inner product, no rank-1 update and no
  multiply (only the \<open>Set\<close> of the ones vector, when that was resized).
\<close>

theorem backward_empty_batch:
  fixes this :: SoftmaxGradientOp
  assumes ax: "canonical_axis_index Y (axis this) = Inr a"
    and N: "size_to_dim Y a = 0" and D: "size_from_dim Y a = D"
    and fit: "D \<le> INT_MAX"
  shows "SoftmaxGradientOp_RunOnDevice this Y dY dX =
     Inr \<lparr>ret = True,
          self = this\<lparr>scale := (if numel (scale this) \<noteq> 0 then Resize (scale this) [0] else scale this),
                      sum_multiplier := (if numel (sum_multiplier this) \<noteq> D
                                         then \<lparr>dims = [D], data = replicate D 1\<rparr>
                                         else sum_multiplier this)\<rparr>,
          out = ResizeLike dX Y,
          calls = (if numel (sum_multiplier this) \<noteq> D then [Set_call D] else [])\<rparr>
     \<and> ResizeLike dX Y = \<lparr>dims = dims Y, data = []\<rparr>"
proof -
  have a_le: "a \<le> length (dims Y)" using ax by (rule canonical_axis_index_le)
  have "numel Y = 0" using size_to_from_numel [OF a_le] N by simp
  then have "ResizeLike dX Y = \<lparr>dims = dims Y, data = []\<rparr>"
    by (simp add: ResizeLike_def Resize_def numel_def)
  with backward_run_empty [OF ax N D fit, of dY dX] show ?thesis by simp
qed

theorem backward_empty_batch_witness:
  "canonical_axis_index example_empty_Y (axis example_op) = Inr 1 \<and>
   size_to_dim example_empty_Y 1 = 0 \<and> size_from_dim example_empty_Y 1 = 3 \<and>
   (3::nat) \<le> INT_MAX \<and>
   SoftmaxGradientOp_RunOnDevice example_op example_empty_Y example_empty_Y example_Y =
     Inr \<lparr>ret = True,
          self = \<lparr>axis = 1, scale = unallocated, sum_multiplier = \<lparr>dims = [3], data = [1, 1, 1]\<rparr>\<rparr>,
          out = \<lparr>dims = [0, 3], data = []\<rparr>,
          calls = [Set_call 3]\<rparr>"
  using backward_empty_batch [OF example_empty_facts, of example_empty_Y example_Y]
    example_empty_facts
  by (simp add: example_op_def example_empty_Y_def unallocated_def numel_def numeral_3_eq_3)

subsection \<open>Sizes beyond \<^verbatim>\<open>int\<close>\<close>

text \<open>
  What the conversion to \<^verbatim>\<open>int\<close> does to the gradient kernel once a collapsed size does
  not fit, on tensors without elements. A product of \<open>2^32\<close> becomes \<open>N = 0\<close>: the kernel
  returns at once and leaves the scratch as it was. A product of \<open>2^31\<close> becomes a negative
  size, which the kernel hands to \<^verbatim>\<open>Resize\<close>.
\<close>

lemma to_int_wraps:
  "to_int 4294967296 = 0" "to_int 2147483648 = - 2147483648" "to_int 2147483647 = 2147483647"
  by (simp_all add: to_int_def)

lemma backward_rows_wrap_to_zero:
  "SoftmaxGradientOp_RunOnDevice \<lparr>axis = 2, scale = unallocated, sum_multiplier = unallocated\<rparr>
     \<lparr>dims = [65536, 65536, 0], data = []\<rparr> \<lparr>dims = [65536, 65536, 0], data = []\<rparr> unallocated =
   Inr \<lparr>ret = True,
        self = \<lparr>axis = 2, scale = unallocated, sum_multiplier = unallocated\<rparr>,
        out = \<lparr>dims = [65536, 65536, 0], data = []\<rparr>,
        calls = []\<rparr>"
  by (simp add: SoftmaxGradientOp_RunOnDevice_def canonical_axis_index_def size_to_dim_def
      size_from_dim_def numel_def unallocated_def Resize_def ResizeLike_def Let_def to_int_def
      numeral_2_eq_2 numeral_3_eq_3)

lemma backward_columns_wrap_to_zero:
  "SoftmaxGradientOp_RunOnDevice \<lparr>axis = 1, scale = unallocated, sum_multiplier = unallocated\<rparr>
     \<lparr>dims = [0, 65536, 65536], data = []\<rparr> \<lparr>dims = [0, 65536, 65536], data = []\<rparr> unallocated =
   Inr \<lparr>ret = True,
        self = \<lparr>axis = 1, scale = unallocated, sum_multiplier = unallocated\<rparr>,
        out = \<lparr>dims = [0, 65536, 65536], data = []\<rparr>,
        calls = []\<rparr>"
  by (simp add: SoftmaxGradientOp_RunOnDevice_def canonical_axis_index_def size_to_dim_def
      size_from_dim_def numel_def unallocated_def Resize_def ResizeLike_def Let_def to_int_def
      numeral_2_eq_2 numeral_3_eq_3)

lemma backward_negative_size:
  "SoftmaxGradientOp_RunOnDevice \<lparr>axis = 1, scale = unallocated, sum_multiplier = unallocated\<rparr>
     \<lparr>dims = [0, 2147483648], data = []\<rparr> \<lparr>dims = [0, 2147483648], data = []\<rparr> unallocated =
   Inl IntOutOfRange"
  by (simp add: SoftmaxGradientOp_RunOnDevice_def canonical_axis_index_def size_to_dim_def
      size_from_dim_def Let_def to_int_def numeral_2_eq_2)

lemma forward_negative_size:
  "SoftmaxOp_RunOnDevice
     \<lparr>axis = 1, scale = unallocated, sum_multiplier = unallocated, rowmax = unallocated\<rparr>
     \<lparr>dims = [0, 2147483648], data = []\<rparr> unallocated =
   Inl IntOutOfRange"
  by (simp add: SoftmaxOp_RunOnDevice_def canonical_axis_index_def size_to_dim_def
      size_from_dim_def Let_def to_int_def numeral_2_eq_2)

subsection \<open>The forward kernel\<close>

lemma row_max_Max:
  assumes "r \<noteq> []"
  shows "row_max r = Max (set r)"
proof (cases r)
  case Nil
  with assms show ?thesis by simp
next
  case (Cons x xs)
  show ?thesis unfolding row_max_def Cons by (simp only: list.sel Max.set_eq_fold)
qed

lemma SoftmaxCPU_lengths:
  assumes "length Ydata = N * D" "length scaledata = N" "length rowmaxdata = N"
  shows "length (fst (SoftmaxCPU N D Xdata Ydata scaledata sm rowmaxdata)) = N * D"
    and "length (fst (snd (SoftmaxCPU N D Xdata Ydata scaledata sm rowmaxdata))) = N"
    and "length (snd (snd (SoftmaxCPU N D Xdata Ydata scaledata sm rowmaxdata))) = N"
  using assms by (simp_all add: SoftmaxCPU_def Let_def)

lemma SoftmaxCPU_Y:
  assumes lenX: "length Xdata = N * D" and lenY: "length Ydata = N * D"
    and i: "i < N" and j: "j < D"
  shows "fst (SoftmaxCPU N D Xdata Ydata scaledata sm rowmaxdata) ! (i * D + j) =
           exp (Xdata ! (i * D + j) - Max ((\<lambda>k. Xdata ! (i * D + k)) ` {..<D}))
             / (\<Sum>k<D. exp (Xdata ! (i * D + k) - Max ((\<lambda>k. Xdata ! (i * D + k)) ` {..<D})))"
proof -
  note ix = row_index [OF i j]
  let ?m = "map (\<lambda>i. row_max (take D (drop (i * D) Xdata))) [0..<N]"
  let ?e = "map (\<lambda>idx. exp (Xdata ! idx - ?m ! (idx div D))) [0..<N * D]"
  let ?s = "map (\<lambda>i. sum_list (take D (drop (i * D) ?e))) [0..<N]"
  let ?M = "Max ((\<lambda>k. Xdata ! (i * D + k)) ` {..<D})"
  have ND: "N \<noteq> 0" "D \<noteq> 0" using i j by auto
  have "length (take D (drop (i * D) Xdata)) = D" using ix(4) lenX by simp
  then have "take D (drop (i * D) Xdata) \<noteq> []" using j by auto
  then have m: "?m ! i = ?M"
    using i ix(4) lenX by (simp add: row_max_Max set_take_drop)
  have e: "?e ! (i * D + k) = exp (Xdata ! (i * D + k) - ?M)" if "k < D" for k
    using row_index [OF i that] m i by simp
  have "?s ! i = (\<Sum>k<D. ?e ! (i * D + k))"
    using i ix(4) by (simp add: sum_list_take_drop del: map_map)
  also have "\<dots> = (\<Sum>k<D. exp (Xdata ! (i * D + k) - ?M))"
    using e by (intro sum.cong refl) simp
  finally have s: "?s ! i = (\<Sum>k<D. exp (Xdata ! (i * D + k) - ?M))" .
  have "fst (SoftmaxCPU N D Xdata Ydata scaledata sm rowmaxdata) ! (i * D + j)
      = ?e ! (i * D + j) / ?s ! i"
    using ND ix(1,2) lenY i by (simp add: SoftmaxCPU_def Let_def nth_append del: map_map)
  then show ?thesis using e [OF j] s by simp
qed

lemma softmax_row:
  fixes x :: "nat \<Rightarrow> real"
  assumes "j < D"
  shows "0 \<le> exp (x j - m) / (\<Sum>k<D. exp (x k - m))"
    and "exp (x j - m) / (\<Sum>k<D. exp (x k - m)) \<le> 1"
    and "(\<Sum>j<D. exp (x j - m) / (\<Sum>k<D. exp (x k - m))) = 1"
proof -
  let ?s = "\<Sum>k<D. exp (x k - m)"
  have le: "exp (x j - m) \<le> ?s"
    using assms by (intro member_le_sum) simp_all
  have pos: "0 < ?s" using le exp_gt_zero [of "x j - m"] by linarith
  show "0 \<le> exp (x j - m) / ?s" using pos by simp
  show "exp (x j - m) / ?s \<le> 1" using pos le by simp
  have "(\<Sum>j<D. exp (x j - m) / ?s) = ?s / ?s" by (simp only: sum_divide_distrib)
  then show "(\<Sum>j<D. exp (x j - m) / ?s) = 1" using pos by simp
qed

lemma forward_run:
  fixes this :: SoftmaxOp
  assumes ax: "canonical_axis_index X (axis this) = Inr a"
    and N: "size_to_dim X a = N" and D: "size_from_dim X a = D"
    and fit: "N \<le> INT_MAX" "D \<le> INT_MAX"
  shows "\<exists>r. SoftmaxOp_RunOnDevice this X Y = Inr r \<and> ret r \<and>
    dims (out r) = dims X \<and>
    data (out r) = fst (SoftmaxCPU N D (data X) (data (ResizeLike Y X))
        (data (if numel (scale this) \<noteq> N then Resize (scale this) [N] else scale this))
        (data (if numel (sum_multiplier this) \<noteq> D then \<lparr>dims = [D], data = replicate D 1\<rparr> else sum_multiplier this))
        (data (if numel (rowmax this) \<noteq> N then Resize (rowmax this) [N] else rowmax this))) \<and>
    dims (scale (self r)) = (if numel (scale this) \<noteq> N then [N] else dims (scale this)) \<and>
    data (scale (self r)) = fst (snd (SoftmaxCPU N D (data X) (data (ResizeLike Y X))
        (data (if numel (scale this) \<noteq> N then Resize (scale this) [N] else scale this))
        (data (if numel (sum_multiplier this) \<noteq> D then \<lparr>dims = [D], data = replicate D 1\<rparr> else sum_multiplier this))
        (data (if numel (rowmax this) \<noteq> N then Resize (rowmax this) [N] else rowmax this)))) \<and>
    dims (rowmax (self r)) = (if numel (rowmax this) \<noteq> N then [N] else dims (rowmax this)) \<and>
    data (rowmax (self r)) = snd (snd (SoftmaxCPU N D (data X) (data (ResizeLike Y X))
        (data (if numel (scale this) \<noteq> N then Resize (scale this) [N] else scale this))
        (data (if numel (sum_multiplier this) \<noteq> D then \<lparr>dims = [D], data = replicate D 1\<rparr> else sum_multiplier this))
        (data (if numel (rowmax this) \<noteq> N then Resize (rowmax this) [N] else rowmax this)))) \<and>
    sum_multiplier (self r) = (if numel (sum_multiplier this) \<noteq> D then \<lparr>dims = [D], data = replicate D 1\<rparr> else sum_multiplier this) \<and>
    axis (self r) = axis this \<and>
    calls r = (if numel (sum_multiplier this) \<noteq> D then [Set_call D] else []) @ [SoftmaxCPU_call N D]"
  using to_int_id [OF fit(1)] to_int_id [OF fit(2)]
  by (simp add: SoftmaxOp_RunOnDevice_def ax N D Let_def split_def Set_n_full tensor_data_update
      ResizeLike_def)

lemma example_forward_facts:
  "scratch_inv example_forward_op" "rowmax_inv example_forward_op"
  "wf_tensor example_X"
  "canonical_axis_index example_X (axis example_forward_op) = Inr 1"
  "size_to_dim example_X 1 = 1" "size_from_dim example_X 1 = 2"
  "(1::nat) \<le> INT_MAX" "(2::nat) \<le> INT_MAX"
  by (simp_all add: scratch_inv_def rowmax_inv_def wf_tensor_def numel_def example_forward_op_def
      example_X_def unallocated_def canonical_axis_index_def size_to_dim_def size_from_dim_def
      INT_MAX_def)

lemma example_forward_run:
  "SoftmaxOp_RunOnDevice example_forward_op example_X unallocated =
     Inr \<lparr>ret = True,
          self = \<lparr>axis = 1,
                  scale = \<lparr>dims = [1], data = [2]\<rparr>,
                  sum_multiplier = \<lparr>dims = [2], data = [1, 1]\<rparr>,
                  rowmax = \<lparr>dims = [1], data = [0]\<rparr>\<rparr>,
          out = \<lparr>dims = [1, 2], data = [1 / 2, 1 / 2]\<rparr>,
          calls = [Set_call 2, SoftmaxCPU_call 1 2]\<rparr>"
  by (simp add: SoftmaxOp_RunOnDevice_def example_forward_op_def example_X_def unallocated_def
      canonical_axis_index_def size_to_dim_def size_from_dim_def numel_def Resize_def
      ResizeLike_def Set_n_def SoftmaxCPU_def row_max_def Let_def numeral_2_eq_2 to_int_def)

lemma example_forward_run':
  "SoftmaxOp_RunOnDevice example_forward_op example_X unallocated = Inr example_forward_result"
  using example_forward_run by (simp add: example_forward_result_def)

text \<open>
  Claim C9, as stated, fails for \<open>D = 0\<close>. A tensor of shape \<open>(1, 0)\<close> collapses to one
  row without columns: \<open>Y\<close> has no cells, and the sum of its only row is \<open>0\<close>, not \<open>1\<close>.
\<close>

theorem forward_row_without_columns:
  "wf_tensor example_no_columns_X \<and>
   canonical_axis_index example_no_columns_X (axis example_forward_op) = Inr 1 \<and>
   size_to_dim example_no_columns_X 1 = 1 \<and> size_from_dim example_no_columns_X 1 = 0 \<and>
   map_sum id out (SoftmaxOp_RunOnDevice example_forward_op example_no_columns_X unallocated)
     = Inr \<lparr>dims = [1, 0], data = []\<rparr> \<and>
   map_sum id (sum_list \<circ> data \<circ> out)
     (SoftmaxOp_RunOnDevice example_forward_op example_no_columns_X unallocated) = Inr 0"
  by (simp add: SoftmaxOp_RunOnDevice_def example_forward_op_def example_no_columns_X_def
      unallocated_def canonical_axis_index_def size_to_dim_def size_from_dim_def numel_def
      Resize_def ResizeLike_def Set_n_def SoftmaxCPU_def Let_def wf_tensor_def to_int_def)

text \<open>
  Claim C9, amended: for every well-formed \<open>X\<close> of finite values and every valid axis
  with \<open>D \<ge> 1\<close> (and \<open>N\<close>, \<open>D\<close> that fit in \<^verbatim>\<open>int\<close>), the forward kernel returns true
  with \<open>Y\<close> of the shape of \<open>X\<close>, where
  \<open>Y[i,j] = exp (X[i,j] - m i) / (\<Sum>k<D. exp (X[i,k] - m i))\<close> and \<open>m i\<close> is the maximum of
  row \<open>i\<close>; every element lies in \<open>[0, 1]\<close> and every row sum is within the tolerance
  of \<open>1\<close>, for every tolerance \<open>tol \<ge> 0\<close>. The elements are real numbers, which is
  what "finite" means here; \<open>SoftmaxCPU\<close> is the four-pass algorithm of the spec.
\<close>

theorem forward_softmax:
  fixes this :: SoftmaxOp
  assumes wfX: "wf_tensor X"
    and ax: "canonical_axis_index X (axis this) = Inr a"
    and N: "size_to_dim X a = N" and D: "size_from_dim X a = D"
    and fit: "N \<le> INT_MAX" "D \<le> INT_MAX"
    and D1: "1 \<le> D"
    and tol: "0 \<le> tol"
  shows "\<exists>r. SoftmaxOp_RunOnDevice this X Y = Inr r \<and> ret r \<and>
           dims (out r) = dims X \<and> length (data (out r)) = N * D \<and>
           (\<forall>i<N. \<forall>j<D.
              data (out r) ! (i * D + j) =
                exp (data X ! (i * D + j) - Max ((\<lambda>k. data X ! (i * D + k)) ` {..<D}))
                  / (\<Sum>k<D. exp (data X ! (i * D + k) - Max ((\<lambda>k. data X ! (i * D + k)) ` {..<D}))) \<and>
              0 \<le> data (out r) ! (i * D + j) \<and> data (out r) ! (i * D + j) \<le> 1) \<and>
           (\<forall>i<N. \<bar>(\<Sum>j<D. data (out r) ! (i * D + j)) - 1\<bar> \<le> tol)"
proof -
  have a_le: "a \<le> length (dims X)" using ax by (rule canonical_axis_index_le)
  have ND: "numel X = N * D" using size_to_from_numel [OF a_le] N D by simp
  have lenX: "length (data X) = N * D" using wfX ND by (simp add: wf_tensor_def)
  have lenY: "length (data (ResizeLike Y X)) = N * D"
    using ND by (simp add: ResizeLike_def numel_def)
  from forward_run [OF ax N D fit, of Y]
  obtain r sc sm rm where run: "SoftmaxOp_RunOnDevice this X Y = Inr r"
    and r: "ret r" "dims (out r) = dims X"
      "data (out r) = fst (SoftmaxCPU N D (data X) (data (ResizeLike Y X)) sc sm rm)"
    by blast
  let ?m = "\<lambda>i. Max ((\<lambda>k. data X ! (i * D + k)) ` {..<D})"
  have el: "data (out r) ! (i * D + j) =
      exp (data X ! (i * D + j) - ?m i) / (\<Sum>k<D. exp (data X ! (i * D + k) - ?m i))"
    if "i < N" "j < D" for i j
    unfolding r(3) using lenX lenY that by (rule SoftmaxCPU_Y)
  have bounds: "0 \<le> data (out r) ! (i * D + j) \<and> data (out r) ! (i * D + j) \<le> 1"
    if "i < N" "j < D" for i j
    unfolding el [OF that]
    using softmax_row(1,2) [OF that(2), of "\<lambda>k. data X ! (i * D + k)" "?m i"] by simp
  have sums: "\<bar>(\<Sum>j<D. data (out r) ! (i * D + j)) - 1\<bar> \<le> tol" if "i < N" for i
  proof -
    from D1 have "0 < D" by simp
    have "(\<Sum>j<D. data (out r) ! (i * D + j))
        = (\<Sum>j<D. exp (data X ! (i * D + j) - ?m i) / (\<Sum>k<D. exp (data X ! (i * D + k) - ?m i)))"
      using el [OF that] by (intro sum.cong refl) simp
    also have "\<dots> = 1"
      using softmax_row(3) [OF \<open>0 < D\<close>, of "\<lambda>k. data X ! (i * D + k)" "?m i"] .
    finally show ?thesis using tol by simp
  qed
  have "length (data (out r)) = N * D"
    unfolding r(3) using SoftmaxCPU_lengths(1) [OF lenY] by (simp add: SoftmaxCPU_def Let_def lenY)
  with run r(1,2) el bounds sums show ?thesis by blast
qed

theorem forward_softmax_witness:
  "wf_tensor example_X \<and>
   canonical_axis_index example_X (axis example_forward_op) = Inr 1 \<and>
   size_to_dim example_X 1 = 1 \<and> size_from_dim example_X 1 = 2 \<and>
   (1::nat) \<le> INT_MAX \<and> (2::nat) \<le> INT_MAX \<and> (0::real) \<le> 1 / 1000000 \<and>
   (case SoftmaxOp_RunOnDevice example_forward_op example_X unallocated of
      Inl e \<Rightarrow> False
    | Inr r \<Rightarrow> ret r \<and> dims (out r) = [1, 2] \<and>
              \<bar>data (out r) ! 0 + data (out r) ! 1 - 1\<bar> \<le> 1 / 1000000 \<and>
              0 \<le> data (out r) ! 0 \<and> data (out r) ! 0 \<le> 1 \<and>
              0 \<le> data (out r) ! 1 \<and> data (out r) ! 1 \<le> 1)"
proof -
  have t: "(0::real) \<le> 1 / 1000000" by simp
  from forward_softmax [OF example_forward_facts(3,4,5,6,7,8) _ t, of unallocated]
  obtain r where run: "SoftmaxOp_RunOnDevice example_forward_op example_X unallocated = Inr r"
    and r: "ret r" "dims (out r) = dims example_X"
    and b: "\<forall>i<1. \<forall>j<2. 0 \<le> data (out r) ! (i * 2 + j) \<and> data (out r) ! (i * 2 + j) \<le> 1"
    and s: "\<forall>i<1. \<bar>(\<Sum>j<2. data (out r) ! (i * 2 + j)) - 1\<bar> \<le> 1 / 1000000"
    by auto
  have two: "{..<2::nat} = {0, 1}" by auto
  from b have "0 \<le> data (out r) ! (0 * 2 + 0) \<and> data (out r) ! (0 * 2 + 0) \<le> 1"
    "0 \<le> data (out r) ! (0 * 2 + 1) \<and> data (out r) ! (0 * 2 + 1) \<le> 1"
    by simp_all
  moreover from s have "\<bar>data (out r) ! 0 + data (out r) ! 1 - 1\<bar> \<le> 1 / 1000000"
    by (simp add: two)
  ultimately show ?thesis
    using run r example_forward_facts by (simp add: example_X_def)
qed

text \<open>
  Claim C6. For a tensor of rank \<open>r\<close> and an axis \<open>a\<close> with \<open>-r \<le> a \<le> r\<close>, the canonical
  axis \<open>a'\<close> is \<open>a\<close> when \<open>a \<ge> 0\<close> and \<open>a + r\<close> otherwise; \<open>N\<close> is the product of the
  dimensions before \<open>a'\<close> and \<open>D\<close> the product of those at and after \<open>a'\<close>; an empty
  product is \<open>1\<close>; \<open>N * D\<close> is the element count. Both kernels work on this \<open>(N, D)\<close>
  when \<open>N\<close> and \<open>D\<close> fit in \<^verbatim>\<open>int\<close>: the forward kernel returns, and so does the
  gradient kernel when the element count fits as well and \<open>dY\<close> holds that many cells; on
  return the row scratch is sized \<open>N\<close>, the ones vector \<open>D\<close>, and the output has the
  shape of the input.
\<close>

theorem collapse_to_N_D:
  fixes fwd :: SoftmaxOp and bwd :: SoftmaxGradientOp
  assumes lo: "- int (length (dims T)) \<le> a" and hi: "a \<le> int (length (dims T))"
  shows "\<exists>a'. canonical_axis_index T a = Inr a' \<and>
           int a' = (if 0 \<le> a then a else a + int (length (dims T))) \<and>
           size_to_dim T a' = prod_list (take a' (dims T)) \<and>
           size_from_dim T a' = prod_list (drop a' (dims T)) \<and>
           size_to_dim T 0 = 1 \<and> size_from_dim T (length (dims T)) = 1 \<and>
           size_to_dim T a' * size_from_dim T a' = numel T \<and>
           (size_to_dim T a' \<le> INT_MAX \<and> size_from_dim T a' \<le> INT_MAX \<longrightarrow>
              (\<exists>r. SoftmaxOp_RunOnDevice (fwd\<lparr>axis := a\<rparr>) T Y = Inr r \<and>
                   numel (scale (self r)) = size_to_dim T a' \<and>
                   numel (rowmax (self r)) = size_to_dim T a' \<and>
                   numel (sum_multiplier (self r)) = size_from_dim T a' \<and>
                   dims (out r) = dims T)) \<and>
           (size_to_dim T a' \<le> INT_MAX \<and> size_from_dim T a' \<le> INT_MAX \<and>
            numel T \<le> INT_MAX \<and> numel T \<le> length (data dY) \<longrightarrow>
              (\<exists>r. SoftmaxGradientOp_RunOnDevice (bwd\<lparr>axis := a\<rparr>) T dY dX = Inr r \<and>
                   numel (scale (self r)) = size_to_dim T a' \<and>
                   numel (sum_multiplier (self r)) = size_from_dim T a' \<and>
                   dims (out r) = dims T))"
proof -
  define a' where "a' = nat (if 0 \<le> a then a else a + int (length (dims T)))"
  have ax: "canonical_axis_index T a = Inr a'"
    using lo hi by (auto simp: canonical_axis_index_def Let_def a'_def)
  have ia: "int a' = (if 0 \<le> a then a else a + int (length (dims T)))"
    using lo by (simp add: a'_def)
  have a_le: "a' \<le> length (dims T)" using ax by (rule canonical_axis_index_le)
  note Nprod = size_to_dim_prod [OF a_le] and Dprod = size_from_dim_prod [of T a']
  have e: "size_to_dim T 0 = 1" "size_from_dim T (length (dims T)) = 1"
    by (simp_all add: size_to_dim_def size_from_dim_def)
  have axf: "canonical_axis_index T (axis (fwd\<lparr>axis := a\<rparr>)) = Inr a'"
    and axb: "canonical_axis_index T (axis (bwd\<lparr>axis := a\<rparr>)) = Inr a'"
    using ax by simp_all
  have f: "\<exists>r. SoftmaxOp_RunOnDevice (fwd\<lparr>axis := a\<rparr>) T Y = Inr r \<and>
             numel (scale (self r)) = size_to_dim T a' \<and>
             numel (rowmax (self r)) = size_to_dim T a' \<and>
             numel (sum_multiplier (self r)) = size_from_dim T a' \<and>
             dims (out r) = dims T"
    if fit: "size_to_dim T a' \<le> INT_MAX" "size_from_dim T a' \<le> INT_MAX"
  proof -
    from forward_run [OF axf refl refl fit, of Y]
    obtain r where "SoftmaxOp_RunOnDevice (fwd\<lparr>axis := a\<rparr>) T Y = Inr r"
      and "dims (out r) = dims T"
      and "dims (scale (self r)) = (if numel (scale fwd) \<noteq> size_to_dim T a' then [size_to_dim T a'] else dims (scale fwd))"
      and "dims (rowmax (self r)) = (if numel (rowmax fwd) \<noteq> size_to_dim T a' then [size_to_dim T a'] else dims (rowmax fwd))"
      and "sum_multiplier (self r) = (if numel (sum_multiplier fwd) \<noteq> size_from_dim T a'
             then \<lparr>dims = [size_from_dim T a'], data = replicate (size_from_dim T a') 1\<rparr>
             else sum_multiplier fwd)"
      by auto
    then show ?thesis by (auto simp: numel_def split: if_splits)
  qed
  have b: "\<exists>r. SoftmaxGradientOp_RunOnDevice (bwd\<lparr>axis := a\<rparr>) T dY dX = Inr r \<and>
             numel (scale (self r)) = size_to_dim T a' \<and>
             numel (sum_multiplier (self r)) = size_from_dim T a' \<and>
             dims (out r) = dims T"
    if fit: "size_to_dim T a' \<le> INT_MAX" "size_from_dim T a' \<le> INT_MAX" "numel T \<le> INT_MAX"
      and len: "numel T \<le> length (data dY)"
  proof -
    from backward_returns [OF axb refl refl fit len, of dX]
    obtain r where run: "SoftmaxGradientOp_RunOnDevice (bwd\<lparr>axis := a\<rparr>) T dY dX = Inr r" ..
    from backward_frame(1,3,5) [OF axb refl refl fit(1,2) run]
    have "numel (scale (self r)) = size_to_dim T a' \<and>
          numel (sum_multiplier (self r)) = size_from_dim T a' \<and> dims (out r) = dims T"
      by (auto simp: numel_def split: if_splits)
    with run show ?thesis by blast
  qed
  from ax ia Nprod Dprod e size_to_from_numel [OF a_le] f b
  show ?thesis by blast
qed

theorem collapse_to_N_D_witness:
  "- int (length (dims example_T)) \<le> - 1 \<and> - 1 \<le> int (length (dims example_T)) \<and>
   canonical_axis_index example_T (- 1) = Inr 2 \<and>
   size_to_dim example_T 2 = 6 \<and> size_from_dim example_T 2 = 4 \<and> numel example_T = 24 \<and>
   (6::nat) \<le> INT_MAX \<and> (4::nat) \<le> INT_MAX \<and> (24::nat) \<le> INT_MAX \<and>
   numel example_T \<le> length (data example_T) \<and>
   (case SoftmaxOp_RunOnDevice (example_forward_op\<lparr>axis := - 1\<rparr>) example_T unallocated of
      Inl e \<Rightarrow> False
    | Inr r \<Rightarrow> numel (scale (self r)) = 6 \<and> numel (rowmax (self r)) = 6 \<and>
              numel (sum_multiplier (self r)) = 4 \<and> dims (out r) = [2, 3, 4]) \<and>
   (case SoftmaxGradientOp_RunOnDevice (example_op\<lparr>axis := - 1\<rparr>) example_T example_T unallocated of
      Inl e \<Rightarrow> False
    | Inr r \<Rightarrow> numel (scale (self r)) = 6 \<and> numel (sum_multiplier (self r)) = 4 \<and>
              dims (out r) = [2, 3, 4])"
proof -
  have h: "- int (length (dims example_T)) \<le> - 1" "- 1 \<le> int (length (dims example_T))"
    by (simp_all add: example_T_def)
  have n: "numel example_T = 24" "length (data example_T) = 24" "dims example_T = [2, 3, 4]"
    by (simp_all add: example_T_def numel_def)
  have m: "(6::nat) \<le> INT_MAX" "(4::nat) \<le> INT_MAX" "(24::nat) \<le> INT_MAX"
    by (simp_all add: INT_MAX_def)
  from collapse_to_N_D [OF h, of example_forward_op unallocated example_T example_op unallocated]
  obtain a' where a: "canonical_axis_index example_T (- 1) = Inr a'"
    and ia: "int a' = (if 0 \<le> (- 1 :: int) then - 1 else - 1 + int (length (dims example_T)))"
    and p: "size_to_dim example_T a' = prod_list (take a' (dims example_T))"
      "size_from_dim example_T a' = prod_list (drop a' (dims example_T))"
    and f: "size_to_dim example_T a' \<le> INT_MAX \<and> size_from_dim example_T a' \<le> INT_MAX \<longrightarrow>
        (\<exists>r. SoftmaxOp_RunOnDevice (example_forward_op\<lparr>axis := - 1\<rparr>) example_T unallocated = Inr r \<and>
             numel (scale (self r)) = size_to_dim example_T a' \<and>
             numel (rowmax (self r)) = size_to_dim example_T a' \<and>
             numel (sum_multiplier (self r)) = size_from_dim example_T a' \<and>
             dims (out r) = dims example_T)"
    and b: "size_to_dim example_T a' \<le> INT_MAX \<and> size_from_dim example_T a' \<le> INT_MAX \<and>
        numel example_T \<le> INT_MAX \<and> numel example_T \<le> length (data example_T) \<longrightarrow>
        (\<exists>r. SoftmaxGradientOp_RunOnDevice (example_op\<lparr>axis := - 1\<rparr>) example_T example_T unallocated = Inr r \<and>
             numel (scale (self r)) = size_to_dim example_T a' \<and>
             numel (sum_multiplier (self r)) = size_from_dim example_T a' \<and>
             dims (out r) = dims example_T)"
    by blast
  from ia have a2: "a' = 2" by (simp add: n)
  have s: "size_to_dim example_T 2 = 6" "size_from_dim example_T 2 = 4"
    using p by (simp_all add: a2 n)
  from f obtain r where "SoftmaxOp_RunOnDevice (example_forward_op\<lparr>axis := - 1\<rparr>) example_T unallocated = Inr r"
    "numel (scale (self r)) = 6" "numel (rowmax (self r)) = 6"
    "numel (sum_multiplier (self r)) = 4" "dims (out r) = [2, 3, 4]"
    using m by (auto simp: a2 s n)
  moreover from b obtain r' where "SoftmaxGradientOp_RunOnDevice (example_op\<lparr>axis := - 1\<rparr>) example_T example_T unallocated = Inr r'"
    "numel (scale (self r')) = 6" "numel (sum_multiplier (self r')) = 4" "dims (out r') = [2, 3, 4]"
    using m by (auto simp: a2 s n)
  ultimately show ?thesis using h a m s n by (simp add: a2)
qed

lemma forward_scratch:
  fixes fwd :: SoftmaxOp
  assumes inv: "scratch_inv fwd" "rowmax_inv fwd"
    and ax: "canonical_axis_index X (axis fwd) = Inr a"
    and N: "size_to_dim X a = N" and D: "size_from_dim X a = D"
    and fit: "N \<le> INT_MAX" "D \<le> INT_MAX"
    and run: "SoftmaxOp_RunOnDevice fwd X Y = Inr r"
  shows "scratch_inv (self r) \<and> rowmax_inv (self r) \<and>
     numel (scale (self r)) = N \<and> length (data (scale (self r))) = N \<and>
     numel (rowmax (self r)) = N \<and> length (data (rowmax (self r))) = N \<and>
     numel (sum_multiplier (self r)) = D \<and> data (sum_multiplier (self r)) = replicate D 1 \<and>
     dims (scale (self r)) = (if numel (scale fwd) \<noteq> N then [N] else dims (scale fwd)) \<and>
     dims (rowmax (self r)) = (if numel (rowmax fwd) \<noteq> N then [N] else dims (rowmax fwd)) \<and>
     sum_multiplier (self r) =
       (if numel (sum_multiplier fwd) \<noteq> D then \<lparr>dims = [D], data = replicate D 1\<rparr>
        else sum_multiplier fwd) \<and>
     (Set_call D \<in> set (calls r)) = (numel (sum_multiplier fwd) \<noteq> D)"
proof -
  have a_le: "a \<le> length (dims X)" using ax by (rule canonical_axis_index_le)
  have ND: "numel X = N * D" using size_to_from_numel [OF a_le] N D by simp
  have lenY: "length (data (ResizeLike Y X)) = N * D"
    using ND by (simp add: ResizeLike_def numel_def)
  have wf: "wf_tensor (scale fwd)" "wf_tensor (rowmax fwd)"
    and ones: "data (sum_multiplier fwd) = replicate (numel (sum_multiplier fwd)) 1"
    using inv by (simp_all add: scratch_inv_def rowmax_inv_def)
  note sc = scratch_step [OF wf(1), of N] and rm = scratch_step [OF wf(2), of N]
    and sm = ones_step [OF ones, of D]
  note len = SoftmaxCPU_lengths(2,3) [OF lenY sc(2) rm(2)]
  from forward_run [OF ax N D fit, of Y] run
  have r: "dims (scale (self r)) = (if numel (scale fwd) \<noteq> N then [N] else dims (scale fwd))"
    "length (data (scale (self r))) = N"
    "dims (rowmax (self r)) = (if numel (rowmax fwd) \<noteq> N then [N] else dims (rowmax fwd))"
    "length (data (rowmax (self r))) = N"
    "sum_multiplier (self r) = (if numel (sum_multiplier fwd) \<noteq> D then \<lparr>dims = [D], data = replicate D 1\<rparr> else sum_multiplier fwd)"
    "calls r = (if numel (sum_multiplier fwd) \<noteq> D then [Set_call D] else []) @ [SoftmaxCPU_call N D]"
    using len by auto
  have n: "numel (scale (self r)) = N" "numel (rowmax (self r)) = N"
    using r(1,3) by (simp_all add: numel_def)
  have m: "numel (sum_multiplier (self r)) = D" "data (sum_multiplier (self r)) = replicate D 1"
    using sm by (simp_all add: r(5))
  have "scratch_inv (self r)" "rowmax_inv (self r)"
    using n m r(2,4) by (simp_all add: scratch_inv_def rowmax_inv_def wf_tensor_def)
  then show ?thesis using n m r by simp
qed

lemma backward_scratch:
  fixes bwd :: SoftmaxGradientOp
  assumes inv: "scratch_inv bwd"
    and ax: "canonical_axis_index Y (axis bwd) = Inr a"
    and N: "size_to_dim Y a = N" and D: "size_from_dim Y a = D"
    and fit: "N \<le> INT_MAX" "D \<le> INT_MAX"
    and run: "SoftmaxGradientOp_RunOnDevice bwd Y dY dX = Inr r"
  shows "scratch_inv (self r) \<and>
     numel (scale (self r)) = N \<and> length (data (scale (self r))) = N \<and>
     numel (sum_multiplier (self r)) = D \<and> data (sum_multiplier (self r)) = replicate D 1 \<and>
     dims (scale (self r)) = (if numel (scale bwd) \<noteq> N then [N] else dims (scale bwd)) \<and>
     sum_multiplier (self r) =
       (if numel (sum_multiplier bwd) \<noteq> D then \<lparr>dims = [D], data = replicate D 1\<rparr>
        else sum_multiplier bwd) \<and>
     (Set_call D \<in> set (calls r)) = (numel (sum_multiplier bwd) \<noteq> D)"
proof -
  have wf: "wf_tensor (scale bwd)"
    and ones: "data (sum_multiplier bwd) = replicate (numel (sum_multiplier bwd)) 1"
    using inv by (simp_all add: scratch_inv_def)
  note sc = scratch_step [OF wf, of N] and sm = ones_step [OF ones, of D]
  note r = backward_frame [OF ax N D fit run]
  have n: "numel (scale (self r)) = N" using r(1) by (simp add: numel_def)
  have l: "length (data (scale (self r))) = N" using r(2) sc(2) by simp
  have m: "numel (sum_multiplier (self r)) = D" "data (sum_multiplier (self r)) = replicate D 1"
    using sm by (simp_all add: r(3))
  have "scratch_inv (self r)"
    using n l m by (simp add: scratch_inv_def wf_tensor_def)
  then show ?thesis using n l m r(1,3,4) by simp
qed

text \<open>
  Claim C8. The scratch invariant holds for an operator whose buffers are unallocated, and
  every invocation of either kernel that returns, on a collapsed shape \<open>(N, D)\<close> that fits
  in \<^verbatim>\<open>int\<close>, preserves it and leaves the row scratch with \<open>N\<close> cells and the ones
  vector with \<open>D\<close> cells, all equal to \<open>1\<close>. A buffer
  keeps its dimensions when its length is already the current \<open>N\<close> or \<open>D\<close>; the ones
  vector is left untouched in that case and is refilled by \<open>Set\<close> exactly when it is
  resized.
\<close>

theorem scratch_buffers_invariant:
  fixes fwd :: SoftmaxOp and bwd :: SoftmaxGradientOp
  shows
   "(scratch_inv fwd \<and> rowmax_inv fwd \<and>
     canonical_axis_index X (axis fwd) = Inr a \<and>
     size_to_dim X a = N \<and> size_from_dim X a = D \<and>
     N \<le> INT_MAX \<and> D \<le> INT_MAX \<and>
     SoftmaxOp_RunOnDevice fwd X Y = Inr r \<longrightarrow>
       scratch_inv (self r) \<and> rowmax_inv (self r) \<and>
       numel (scale (self r)) = N \<and> length (data (scale (self r))) = N \<and>
       numel (rowmax (self r)) = N \<and> length (data (rowmax (self r))) = N \<and>
       numel (sum_multiplier (self r)) = D \<and> data (sum_multiplier (self r)) = replicate D 1 \<and>
       dims (scale (self r)) = (if numel (scale fwd) \<noteq> N then [N] else dims (scale fwd)) \<and>
       dims (rowmax (self r)) = (if numel (rowmax fwd) \<noteq> N then [N] else dims (rowmax fwd)) \<and>
       sum_multiplier (self r) =
         (if numel (sum_multiplier fwd) \<noteq> D then \<lparr>dims = [D], data = replicate D 1\<rparr>
          else sum_multiplier fwd) \<and>
       (Set_call D \<in> set (calls r)) = (numel (sum_multiplier fwd) \<noteq> D))
    \<and>
    (scratch_inv bwd \<and>
     canonical_axis_index Y' (axis bwd) = Inr a' \<and>
     size_to_dim Y' a' = N' \<and> size_from_dim Y' a' = D' \<and>
     N' \<le> INT_MAX \<and> D' \<le> INT_MAX \<and>
     SoftmaxGradientOp_RunOnDevice bwd Y' dY dX = Inr r' \<longrightarrow>
       scratch_inv (self r') \<and>
       numel (scale (self r')) = N' \<and> length (data (scale (self r'))) = N' \<and>
       numel (sum_multiplier (self r')) = D' \<and> data (sum_multiplier (self r')) = replicate D' 1 \<and>
       dims (scale (self r')) = (if numel (scale bwd) \<noteq> N' then [N'] else dims (scale bwd)) \<and>
       sum_multiplier (self r') =
         (if numel (sum_multiplier bwd) \<noteq> D' then \<lparr>dims = [D'], data = replicate D' 1\<rparr>
          else sum_multiplier bwd) \<and>
       (Set_call D' \<in> set (calls r')) = (numel (sum_multiplier bwd) \<noteq> D'))
    \<and>
    scratch_inv \<lparr>axis = k, scale = unallocated, sum_multiplier = unallocated, rowmax = unallocated\<rparr> \<and>
    rowmax_inv \<lparr>axis = k, scale = unallocated, sum_multiplier = unallocated, rowmax = unallocated\<rparr> \<and>
    scratch_inv \<lparr>axis = k, scale = unallocated, sum_multiplier = unallocated\<rparr>"
proof (intro conjI)
  show "scratch_inv \<lparr>axis = k, scale = unallocated, sum_multiplier = unallocated, rowmax = unallocated\<rparr>"
    "rowmax_inv \<lparr>axis = k, scale = unallocated, sum_multiplier = unallocated, rowmax = unallocated\<rparr>"
    "scratch_inv \<lparr>axis = k, scale = unallocated, sum_multiplier = unallocated\<rparr>"
    by (simp_all add: scratch_inv_def rowmax_inv_def wf_tensor_def numel_def unallocated_def)
qed ((intro impI, elim conjE, (rule forward_scratch backward_scratch; assumption))+)

theorem scratch_buffers_invariant_witness:
  "scratch_inv example_forward_op \<and> rowmax_inv example_forward_op \<and>
   canonical_axis_index example_X (axis example_forward_op) = Inr 1 \<and>
   size_to_dim example_X 1 = 1 \<and> size_from_dim example_X 1 = 2 \<and>
   (1::nat) \<le> INT_MAX \<and> (2::nat) \<le> INT_MAX \<and>
   SoftmaxOp_RunOnDevice example_forward_op example_X unallocated = Inr example_forward_result \<and>
   numel (sum_multiplier example_forward_op) \<noteq> 2 \<and>
   scratch_inv (self example_forward_result) \<and> rowmax_inv (self example_forward_result) \<and>
   length (data (scale (self example_forward_result))) = 1 \<and>
   length (data (rowmax (self example_forward_result))) = 1 \<and>
   data (sum_multiplier (self example_forward_result)) = replicate 2 1 \<and>
   Set_call 2 \<in> set (calls example_forward_result) \<and>
   scratch_inv example_op \<and>
   canonical_axis_index example_Y (axis example_op) = Inr 1 \<and>
   size_to_dim example_Y 1 = 1 \<and> size_from_dim example_Y 1 = 2 \<and>
   SoftmaxGradientOp_RunOnDevice example_op example_Y example_dY unallocated = Inr example_backward_result \<and>
   numel (sum_multiplier example_op) \<noteq> 2 \<and>
   scratch_inv (self example_backward_result) \<and>
   length (data (scale (self example_backward_result))) = 1 \<and>
   data (sum_multiplier (self example_backward_result)) = replicate 2 1 \<and>
   Set_call 2 \<in> set (calls example_backward_result)"
proof -
  have n: "numel (sum_multiplier example_forward_op) \<noteq> 2" "numel (sum_multiplier example_op) \<noteq> 2"
    by (simp_all add: example_forward_op_def example_op_def unallocated_def numel_def)
  from scratch_buffers_invariant [where fwd = example_forward_op and X = example_X and a = 1
      and N = 1 and D = 2 and Y = unallocated and r = example_forward_result
      and bwd = example_op and Y' = example_Y and a' = 1 and N' = 1 and D' = 2
      and dY = example_dY and dX = unallocated and r' = example_backward_result]
  show ?thesis
    using example_forward_facts example_forward_run' example_facts example_backward_run n
    by simp
qed

text \<open>
  Claim C10. Whenever either \<open>RunOnDevice\<close> runs to completion, the boolean it returns is
  true: failure is never reported through the return value.
\<close>

theorem run_returns_true:
  "(SoftmaxOp_RunOnDevice fwd X Y = Inr r \<longrightarrow> ret r) \<and>
   (SoftmaxGradientOp_RunOnDevice bwd Y' dY dX = Inr r' \<longrightarrow> ret r')"
proof (intro conjI impI)
  assume "SoftmaxOp_RunOnDevice fwd X Y = Inr r"
  then show "ret r"
    by (auto simp: SoftmaxOp_RunOnDevice_def Let_def split_def split: sum.splits if_splits)
next
  assume "SoftmaxGradientOp_RunOnDevice bwd Y' dY dX = Inr r'"
  then show "ret r'"
    by (auto simp: SoftmaxGradientOp_RunOnDevice_def Let_def split: sum.splits if_splits)
qed

theorem run_returns_true_witness:
  "(case SoftmaxOp_RunOnDevice example_forward_op example_X unallocated of
      Inl e \<Rightarrow> False | Inr r \<Rightarrow> ret r) \<and>
   (case SoftmaxGradientOp_RunOnDevice example_op example_Y example_dY unallocated of
      Inl e \<Rightarrow> False | Inr r \<Rightarrow> ret r)"
proof -
  obtain r where f: "SoftmaxOp_RunOnDevice example_forward_op example_X unallocated = Inr r"
    using example_forward_run by simp
  have "numel example_Y \<le> length (data example_dY)"
    by (simp add: example_Y_def example_dY_def numel_def)
  from backward_elements [OF example_facts(5,2,1,6,7) _ this example_facts(11,12,10), of unallocated]
  obtain r' where b: "SoftmaxGradientOp_RunOnDevice example_op example_Y example_dY unallocated = Inr r'"
    by auto
  from run_returns_true [of example_forward_op example_X unallocated r
      example_op example_Y example_dY unallocated r'] f b
  show ?thesis by simp
qed

end
